theory Spec2Isabelle
  imports Main "HOL-Library.AList" "HOL-Library.Char_ord" "HOL-Library.List_Lexorder"
begin

section \<open>Dates and times\<close>

text \<open>
  The program reads the clock with \<^verbatim>\<open>datetime.now()\<close> and adds \<^verbatim>\<open>timedelta\<close>
  values to the result. A datetime is modelled by its calendar fields and the
  microsecond of the day; a timedelta by its length in microseconds. Every operation
  that reads the clock takes the value read as its first argument. The calendar is the
  proleptic Gregorian one of the \<^verbatim>\<open>datetime\<close> module, without its bound on the year:
  where Python raises \<^verbatim>\<open>OverflowError\<close> because a date leaves the years 1 to 9999,
  \<open>dt_add\<close> gives the date of the unbounded calendar. What is stated about the answer to
  a request that computes an end date is stated for end dates within that bound
  (\<open>end_date_in_range\<close> below).
\<close>

record datetime =
  year :: int
  month :: nat
  day :: nat
  usec :: nat

definition usec_per_day :: int where
  "usec_per_day = 86400000000"

definition hours :: "int \<Rightarrow> int" where
  "hours h = h * 3600000000"

definition days :: "int \<Rightarrow> int" where
  "days d = d * usec_per_day"

definition leap :: "int \<Rightarrow> bool" where
  "leap y = (y mod 4 = 0 \<and> (y mod 100 \<noteq> 0 \<or> y mod 400 = 0))"

text \<open>\<^verbatim>\<open>calendar.monthrange(year, month)[1]\<close>: the number of days of a month.\<close>

definition monthrange :: "int \<Rightarrow> nat \<Rightarrow> nat" where
  "monthrange y m =
     (if m = 2 then (if leap y then 29 else 28)
      else if m = 4 \<or> m = 6 \<or> m = 9 \<or> m = 11 then 30 else 31)"

definition next_day :: "datetime \<Rightarrow> datetime" where
  "next_day t =
     (if day t < monthrange (year t) (month t) then t\<lparr>day := day t + 1\<rparr>
      else if month t < 12 then t\<lparr>month := month t + 1, day := 1\<rparr>
      else t\<lparr>year := year t + 1, month := 1, day := 1\<rparr>)"

definition prev_day :: "datetime \<Rightarrow> datetime" where
  "prev_day t =
     (if 1 < day t then t\<lparr>day := day t - 1\<rparr>
      else if 1 < month t
        then t\<lparr>month := month t - 1, day := monthrange (year t) (month t - 1)\<rparr>
      else t\<lparr>year := year t - 1, month := 12, day := 31\<rparr>)"

definition add_days :: "datetime \<Rightarrow> int \<Rightarrow> datetime" where
  "add_days t n =
     (if 0 \<le> n then (next_day ^^ nat n) t else (prev_day ^^ nat (- n)) t)"

text \<open>\<^verbatim>\<open>t + timedelta\<close>, the timedelta given in microseconds.\<close>

definition dt_add :: "datetime \<Rightarrow> int \<Rightarrow> datetime" where
  "dt_add t td =
     (let total = int (usec t) + td
      in add_days (t\<lparr>usec := nat (total mod usec_per_day)\<rparr>) (total div usec_per_day))"

text \<open>\<^verbatim>\<open>datetime(y, m, 1)\<close>: midnight on the first day of a month.\<close>

definition first_of_month :: "int \<Rightarrow> nat \<Rightarrow> datetime" where
  "first_of_month y m = \<lparr>year = y, month = m, day = 1, usec = 0\<rparr>"

definition valid_datetime :: "datetime \<Rightarrow> bool" where
  "valid_datetime t \<longleftrightarrow>
     1 \<le> month t \<and> month t \<le> 12 \<and> 1 \<le> day t \<and> day t \<le> monthrange (year t) (month t)
     \<and> int (usec t) < usec_per_day"

section \<open>Errors and responses\<close>

text \<open>
  Every route of the program answers a request with a text. The texts that report a
  refusal are the constructors of \<open>message\<close>; \<open>Page\<close> stands for the ordinary page of a
  route (its HTML is not modelled). An exception that no handler catches leaves the route
  and is the answer \<open>Raised\<close>. Each operation returns its answer together with the state
  it leaves behind.
\<close>

datatype error = KeyError | ValueError | TypeError | OverflowError

datatype message =
    Select_available_tank "string list"
  | Select_right_tank
  | Already_dispatched
  | Not_enough_bottles string
  | No_prediction

datatype response = Page | Msg message | Raised error

section \<open>Attribute lookup by name\<close>

text \<open>
  \<^verbatim>\<open>Tanks\<close> and \<^verbatim>\<open>Inventory\<close> find their entries with \<^verbatim>\<open>getattr(self, name)\<close>.
  For the name of an instance variable this is the dictionary stored there. For any other
  attribute of the object it is that attribute, which is no such dictionary: the methods
  of the class, and the attributes every instance of a plain class carries
  (\<open>object_attrs\<close>, the names CPython 3.8 lists for it). For every other name
  \<^verbatim>\<open>getattr\<close> raises \<^verbatim>\<open>AttributeError\<close>, which both classes catch.
\<close>

datatype 'a attr = Dict 'a | Other_attr

definition object_attrs :: "string list" where
  "object_attrs =
     [''__class__'', ''__delattr__'', ''__dict__'', ''__dir__'', ''__doc__'', ''__eq__'',
      ''__format__'', ''__ge__'', ''__getattribute__'', ''__gt__'', ''__hash__'',
      ''__init__'', ''__init_subclass__'', ''__le__'', ''__lt__'', ''__module__'',
      ''__ne__'', ''__new__'', ''__reduce__'', ''__reduce_ex__'', ''__repr__'',
      ''__setattr__'', ''__sizeof__'', ''__str__'', ''__subclasshook__'', ''__weakref__'']"

text \<open>
  Subscripting an attribute that is not one of the stored dictionaries raises
  \<^verbatim>\<open>TypeError\<close>, except for \<^verbatim>\<open>__dict__\<close>, a dictionary without the key asked for.
\<close>

definition subscript_error :: "string \<Rightarrow> error" where
  "subscript_error name = (if name = ''__dict__'' then KeyError else TypeError)"

section \<open>Tanks\<close>

record tank_value =
  capability :: "string list"
  tank_volume :: int

definition Tanks_init :: "(string \<times> tank_value) list" where
  "Tanks_init =
     [(''albert'', \<lparr>capability = [''ferm'', ''cond''], tank_volume = 1000\<rparr>),
      (''brigadier'', \<lparr>capability = [''ferm'', ''cond''], tank_volume = 800\<rparr>),
      (''camilla'', \<lparr>capability = [''ferm'', ''cond''], tank_volume = 1000\<rparr>),
      (''dylon'', \<lparr>capability = [''ferm'', ''cond''], tank_volume = 800\<rparr>),
      (''emily'', \<lparr>capability = [''ferm'', ''cond''], tank_volume = 1000\<rparr>),
      (''florence'', \<lparr>capability = [''ferm'', ''cond''], tank_volume = 800\<rparr>),
      (''gertrude'', \<lparr>capability = [''cond''], tank_volume = 680\<rparr>),
      (''harry'', \<lparr>capability = [''cond''], tank_volume = 680\<rparr>),
      (''r2d2'', \<lparr>capability = [''ferm''], tank_volume = 800\<rparr>)]"

definition Tanks_methods :: "string list" where
  "Tanks_methods = [''get_tank_value'', ''get_tank_names'']"

definition get_tank_value :: "string \<Rightarrow> tank_value attr" where
  "get_tank_value tank_name =
     (case map_of Tanks_init tank_name of
        Some tank_value \<Rightarrow> Dict tank_value
      | None \<Rightarrow>
          if tank_name \<in> set (Tanks_methods @ object_attrs) then Other_attr
          else Dict \<lparr>capability = [''''], tank_volume = 0\<rparr>)"

text \<open>
  \<^verbatim>\<open>get_tank_names\<close> filters \<^verbatim>\<open>dir(self)\<close>, which is sorted: the names of the
  instance variables in alphabetical order, the order \<open>Tanks_init\<close> lists them in.
\<close>

definition get_tank_names :: "string list" where
  "get_tank_names = map fst Tanks_init"

section \<open>Inventory\<close>

record inventory =
  dunkers :: int
  pilsner :: int
  red_helles :: int

definition Inventory_init :: inventory where
  "Inventory_init = \<lparr>dunkers = 0, pilsner = 0, red_helles = 0\<rparr>"

definition Inventory_methods :: "string list" where
  "Inventory_methods = [''get_inv_items_quantity'', ''get_inv_items_names'']"

text \<open>The \<^verbatim>\<open>"num"\<close> entry of the dictionary \<^verbatim>\<open>get_inv_items_quantity\<close> returns.\<close>

definition get_inv_items_quantity :: "inventory \<Rightarrow> string \<Rightarrow> int attr" where
  "get_inv_items_quantity ivt inv_item_name =
     (if inv_item_name = ''dunkers'' then Dict (dunkers ivt)
      else if inv_item_name = ''pilsner'' then Dict (pilsner ivt)
      else if inv_item_name = ''red_helles'' then Dict (red_helles ivt)
      else if inv_item_name \<in> set (Inventory_methods @ object_attrs) then Other_attr
      else Dict 0)"

text \<open>
  The dictionary returned for an instance variable is the stored one, so an assignment to
  its \<^verbatim>\<open>"num"\<close> entry changes the inventory; the one returned for an unknown name is
  fresh, and an assignment to it is lost.
\<close>

definition set_inv_items_quantity :: "inventory \<Rightarrow> string \<Rightarrow> int \<Rightarrow> inventory" where
  "set_inv_items_quantity ivt inv_item_name n =
     (if inv_item_name = ''dunkers'' then ivt\<lparr>dunkers := n\<rparr>
      else if inv_item_name = ''pilsner'' then ivt\<lparr>pilsner := n\<rparr>
      else if inv_item_name = ''red_helles'' then ivt\<lparr>red_helles := n\<rparr>
      else ivt)"

definition get_inv_items_names :: "string list" where
  "get_inv_items_names = [''dunkers'', ''pilsner'', ''red_helles'']"

section \<open>Batches\<close>

text \<open>
  The fields of \<^verbatim>\<open>Batch\<close>. A time that is still the empty string is \<open>None\<close>, and so
  is \<^verbatim>\<open>num_bottles_to_inv\<close> before the bottles are counted. The handles on the tanks and
  on the inventory are not fields here: the tanks never change, and the one inventory
  every batch refers to is a field of the program state.
\<close>

record batch =
  batch_id :: string
  beer_type :: string
  volume :: int
  num_bottles_to_inv :: "int option"
  bottles_put_in_inventory :: bool
  phase_current :: string
  phase_current_tank :: string
  phase_last_completed :: string
  time_start_phase1 :: "datetime option"
  time_start_phase2 :: "datetime option"
  time_start_phase3 :: "datetime option"
  time_start_phase4 :: "datetime option"
  time_end_phase1 :: "datetime option"
  time_end_phase2 :: "datetime option"
  time_end_phase3 :: "datetime option"
  time_end_phase4 :: "datetime option"

definition Batch_init :: "string \<Rightarrow> string \<Rightarrow> int \<Rightarrow> batch" where
  "Batch_init b_id b_type vol =
     \<lparr>batch_id = b_id, beer_type = b_type, volume = vol,
      num_bottles_to_inv = None, bottles_put_in_inventory = False,
      phase_current = '''', phase_current_tank = '''', phase_last_completed = '''',
      time_start_phase1 = None, time_start_phase2 = None,
      time_start_phase3 = None, time_start_phase4 = None,
      time_end_phase1 = None, time_end_phase2 = None,
      time_end_phase3 = None, time_end_phase4 = None\<rparr>"

definition duration_phase1 :: int where "duration_phase1 = 5"
definition duration_phase2 :: int where "duration_phase2 = 672"
definition duration_phase3 :: int where "duration_phase3 = 336"

text \<open>
  \<^verbatim>\<open>timedelta(hours=(1 / 60) * volume * 2)\<close>: one minute for each of the
  \<open>2 * volume\<close> bottles. The source computes the hours in binary floating point and
  \<^verbatim>\<open>timedelta\<close> rounds to the microsecond; the model takes the exact value.
\<close>

definition duration_phase4 :: "int \<Rightarrow> int" where
  "duration_phase4 vol = vol * 2 * 60000000"

text \<open>
  \<^verbatim>\<open>(1 / 60) * self.volume * 2\<close> in \<^verbatim>\<open>Batch.__init__\<close> turns the volume into a
  float and raises \<^verbatim>\<open>OverflowError\<close> for an integer that rounds to no finite double:
  one of magnitude \<open>2 ^ 1024 - 2 ^ 970\<close> or more.
\<close>

definition float_overflow :: "int \<Rightarrow> bool" where
  "float_overflow n \<longleftrightarrow> 2 ^ 1024 - 2 ^ 970 \<le> \<bar>n\<bar>"

definition put_bottles_in_inventory :: "batch \<Rightarrow> inventory \<Rightarrow> batch \<times> inventory" where
  "put_bottles_in_inventory b ivt =
     (if \<not> bottles_put_in_inventory b then
        let n = volume b * 2;
            b' = b\<lparr>bottles_put_in_inventory := True, num_bottles_to_inv := Some n\<rparr>
        in if beer_type b = ''dunkers'' then (b', ivt\<lparr>dunkers := dunkers ivt + n\<rparr>)
           else if beer_type b = ''pilsner'' then (b', ivt\<lparr>pilsner := pilsner ivt + n\<rparr>)
           else if beer_type b = ''red_helles''
             then (b', ivt\<lparr>red_helles := red_helles ivt + n\<rparr>)
           else (b', ivt)
      else (b, ivt))"

definition set_phase_start_end_datetimes ::
    "datetime \<Rightarrow> batch \<Rightarrow> inventory \<Rightarrow> batch \<times> inventory" where
  "set_phase_start_end_datetimes now b ivt =
     (if phase_current b = ''hot brewing'' then
        (b\<lparr>time_start_phase1 := Some now,
           time_end_phase1 := Some (dt_add now (hours duration_phase1)),
           phase_last_completed := ''''\<rparr>, ivt)
      else if phase_current b = ''ferm'' then
        (b\<lparr>time_start_phase2 := Some now,
           time_end_phase2 := Some (dt_add now (hours duration_phase2)),
           phase_last_completed := ''hot brewing''\<rparr>, ivt)
      else if phase_current b = ''cond'' then
        (b\<lparr>time_start_phase3 := Some now,
           time_end_phase3 := Some (dt_add now (hours duration_phase3)),
           phase_last_completed := ''ferm''\<rparr>, ivt)
      else if phase_current b = ''bottling'' then
        (b\<lparr>time_start_phase4 := Some now,
           time_end_phase4 := Some (dt_add now (duration_phase4 (volume b))),
           phase_last_completed := ''cond''\<rparr>, ivt)
      else if phase_current b = ''finished'' then
        put_bottles_in_inventory (b\<lparr>phase_last_completed := ''bottling''\<rparr>) ivt
      else (b, ivt))"



section \<open>The program state\<close>

text \<open>
  An order as \<^verbatim>\<open>register_dispatch_delete_order\<close> stores it. The quantity is kept as
  the text of the form and read with \<^verbatim>\<open>int\<close> when the order is dispatched: the
  field holds the integer \<^verbatim>\<open>int\<close> returns, or \<open>None\<close> for a text it rejects.
\<close>

record order =
  invoice_number :: string
  customer :: string
  date_required :: string
  recipe :: string
  gyle_number :: string
  quantity_ordered :: "int option"
  dispatched :: string

text \<open>
  A stored forecast is read at a date with \<^verbatim>\<open>predicted_mean[date]\<close> and the value
  is then given to \<^verbatim>\<open>int\<close>: \<open>Mean n\<close> is a value that \<^verbatim>\<open>int\<close> turns into \<open>n\<close>,
  \<open>Not_a_number\<close> one for which it raises \<^verbatim>\<open>ValueError\<close>, \<open>Infinite\<close> one for
  which it raises \<^verbatim>\<open>OverflowError\<close>, and \<open>No_key\<close> a date the forecast does not cover.
\<close>

datatype forecast_value = No_key | Not_a_number | Infinite | Mean int

type_synonym forecast = "datetime \<Rightarrow> forecast_value"

text \<open>
  The entries of \<^verbatim>\<open>app.config\<close> that hold the state. A Python dictionary keeps its
  keys in the order of insertion: it is a list of pairs with distinct keys.
\<close>

record state =
  batches :: "(string \<times> batch) list"
  customer_orders :: "(string \<times> order) list"
  inventory :: inventory
  monthly_sales_forecasts :: "(string \<times> forecast) list"

definition initial_state :: state where
  "initial_state =
     \<lparr>batches = [], customer_orders = [], inventory = Inventory_init,
      monthly_sales_forecasts = []\<rparr>"

text \<open>\<^verbatim>\<open>text.replace(" ", "")\<close>\<close>

definition remove_blanks :: "string \<Rightarrow> string" where
  "remove_blanks text = filter (\<lambda>c. c \<noteq> CHR '' '') text"

section \<open>Adding and deleting batches\<close>

text \<open>
  The fields of the form are arguments; one the code compares with \<^verbatim>\<open>None\<close> is an
  option. The volume is the result of \<^verbatim>\<open>int(batch_volume_input)\<close>: the integer, or
  the error raised, which is \<^verbatim>\<open>ValueError\<close> for a text that is no integer and
  \<^verbatim>\<open>TypeError\<close> for a field that is missing. \<^verbatim>\<open>Batch(...)\<close> raises
  \<^verbatim>\<open>OverflowError\<close> for a volume that is no float, before the batch is stored.
\<close>

definition add_delete_batch ::
    "string option \<Rightarrow> error + int \<Rightarrow> string \<Rightarrow> string option \<Rightarrow> state \<Rightarrow> response \<times> state"
where
  "add_delete_batch id_input volume_input beer_type_input delete_batch_input s =
     (case id_input of
        Some i \<Rightarrow>
          (case volume_input of
             Inl e \<Rightarrow> (Raised e, s)
           | Inr vol \<Rightarrow>
               let i' = remove_blanks i
               in if map_of (batches s) i' = None
                  then if float_overflow vol then (Raised OverflowError, s)
                       else (Page, s\<lparr>batches :=
                               AList.update i' (Batch_init i' beer_type_input vol)
                                 (batches s)\<rparr>)
                  else (Page, s))
      | None \<Rightarrow>
          (case delete_batch_input of
             Some d \<Rightarrow>
               if d \<in> fst ` set (batches s)
               then (Page, s\<lparr>batches := AList.delete d (batches s)\<rparr>)
               else (Page, s)
           | None \<Rightarrow> (Page, s)))"

section \<open>Changing the phase of a batch\<close>

definition used_tanks :: "(string \<times> batch) list \<Rightarrow> string list" where
  "used_tanks bs =
     map phase_current_tank (filter (\<lambda>b. phase_current_tank b \<noteq> []) (map snd bs))"

definition available_tanks :: "(string \<times> batch) list \<Rightarrow> batch \<Rightarrow> string list" where
  "available_tanks bs b =
     filter (\<lambda>tank. tank \<notin> set (used_tanks bs)) get_tank_names
     @ (if phase_current_tank b \<noteq> [] then [phase_current_tank b] else [])"

text \<open>
  The assignments made once \<^verbatim>\<open>change_batch\<close> is true, for an end date within the
  bound of \<^verbatim>\<open>datetime\<close> (see \<open>end_date_in_range\<close>).
\<close>

definition change_batch ::
    "datetime \<Rightarrow> string \<Rightarrow> batch \<Rightarrow> string \<Rightarrow> string \<Rightarrow> state \<Rightarrow> state" where
  "change_batch now i b phase_input tank_input s =
     (let (b', ivt') =
            set_phase_start_end_datetimes now
              (b\<lparr>phase_current := phase_input, phase_current_tank := tank_input\<rparr>)
              (inventory s)
      in s\<lparr>batches := AList.update i b' (batches s), inventory := ivt'\<rparr>)"

definition change_batchs_phase ::
    "datetime \<Rightarrow> string option \<Rightarrow> string \<Rightarrow> string \<Rightarrow> state \<Rightarrow> response \<times> state" where
  "change_batchs_phase now id_input phase_input tank_input s =
     (case id_input of
        None \<Rightarrow> (Page, s)
      | Some i \<Rightarrow>
          (case map_of (batches s) i of
             None \<Rightarrow> (Raised KeyError, s)
           | Some b \<Rightarrow>
               if phase_current b \<noteq> ''finished'' then
                 if phase_input \<in> set [''hot brewing'', ''bottling'', ''finished'']
                    \<and> tank_input = ''not applicable''
                 then (Page, change_batch now i b phase_input tank_input s)
                 else if phase_input \<in> set [''ferm'', ''cond'']
                         \<and> tank_input \<noteq> ''not applicable''
                 then
                   if tank_input \<notin> set (available_tanks (batches s) b)
                   then (Msg (Select_available_tank (available_tanks (batches s) b)), s)
                   else
                     (case get_tank_value tank_input of
                        Other_attr \<Rightarrow> (Raised (subscript_error tank_input), s)
                      | Dict tank_value \<Rightarrow>
                          if phase_input \<in> set (capability tank_value)
                             \<and> volume b \<le> tank_volume tank_value
                          then (Page, change_batch now i b phase_input tank_input s)
                          else (Msg Select_right_tank, s))
                 else (Msg Select_right_tank, s)
               else (Page, s)))"

section \<open>Registering, dispatching and deleting orders\<close>

text \<open>
  The date required is the text \<^verbatim>\<open>strftime\<close> produces from the parsed input,
  \<open>None\<close> when \<^verbatim>\<open>strptime\<close> rejects the input.
\<close>

definition register_dispatch_delete_order ::
    "string option \<Rightarrow> string \<Rightarrow> string option \<Rightarrow> string \<Rightarrow> string \<Rightarrow> int option
     \<Rightarrow> string option \<Rightarrow> string option \<Rightarrow> state \<Rightarrow> response \<times> state" where
  "register_dispatch_delete_order invoice_num_input customer_input date_required_input
       recipe_input gyle_number_input quantity_input dispatch_order_num delete_order s =
     (case invoice_num_input of
        Some n \<Rightarrow>
          (case date_required_input of
             None \<Rightarrow> (Raised ValueError, s)
           | Some date \<Rightarrow>
               let n' = remove_blanks n
               in if map_of (customer_orders s) n' = None
                  then (Page, s\<lparr>customer_orders :=
                          AList.update n'
                            \<lparr>invoice_number = n', customer = customer_input,
                             date_required = date, recipe = recipe_input,
                             gyle_number = gyle_number_input,
                             quantity_ordered = quantity_input, dispatched = []\<rparr>
                            (customer_orders s)\<rparr>)
                  else (Page, s))
      | None \<Rightarrow>
          (case (case dispatch_order_num of
                   None \<Rightarrow> None
                 | Some d \<Rightarrow> map_option (Pair d) (map_of (customer_orders s) d)) of
             Some (d, ord) \<Rightarrow>
               if dispatched ord = ''dispatched'' then (Msg Already_dispatched, s)
               else
                 (case quantity_ordered ord of
                    None \<Rightarrow> (Raised ValueError, s)
                  | Some quantity \<Rightarrow>
                      (case get_inv_items_quantity (inventory s) (recipe ord) of
                         Other_attr \<Rightarrow> (Raised (subscript_error (recipe ord)), s)
                       | Dict num \<Rightarrow>
                           if quantity \<le> num
                           then (Page,
                                 s\<lparr>inventory :=
                                     set_inv_items_quantity (inventory s) (recipe ord)
                                       (num - quantity),
                                   customer_orders :=
                                     AList.update d (ord\<lparr>dispatched := ''dispatched''\<rparr>)
                                       (customer_orders s)\<rparr>)
                           else (Msg (Not_enough_bottles (recipe ord)), s)))
           | None \<Rightarrow>
               (case delete_order of
                  Some d \<Rightarrow>
                    if d \<in> fst ` set (customer_orders s)
                    then (Page, s\<lparr>customer_orders := AList.delete d (customer_orders s)\<rparr>)
                    else (Page, s)
                | None \<Rightarrow> (Page, s))))"

section \<open>Sequences of requests\<close>

text \<open>
  The requests that change the state, each with the fields of its form.
  \<^verbatim>\<open>predict_sales\<close> fits its forecasts outside the scope of this model; the request
  carries the forecasts it stores.
\<close>

datatype request =
    Add_delete_batch "string option" "error + int" string "string option"
  | Change_batchs_phase "string option" string string
  | Register_dispatch_delete_order "string option" string "string option" string string
      "int option" "string option" "string option"
  | Predict_sales "(string \<times> forecast) list"

fun handle :: "datetime \<Rightarrow> request \<Rightarrow> state \<Rightarrow> response \<times> state" where
  "handle now (Add_delete_batch i v t d) s = add_delete_batch i v t d s"
| "handle now (Change_batchs_phase i p t) s = change_batchs_phase now i p t s"
| "handle now (Register_dispatch_delete_order n c d r g q di de) s =
     register_dispatch_delete_order n c d r g q di de s"
| "handle now (Predict_sales fs) s = (Page, s\<lparr>monthly_sales_forecasts := fs\<rparr>)"

text \<open>A sequence of requests, each with the time at which it is served.\<close>

fun run :: "(datetime \<times> request) list \<Rightarrow> state \<Rightarrow> state" where
  "run [] s = s"
| "run ((now, q) # qs) s = run qs (snd (handle now q s))"

fun is_phase_change :: "request \<Rightarrow> bool" where
  "is_phase_change (Change_batchs_phase i p t) = True"
| "is_phase_change _ = False"

section \<open>Notions the properties are stated with\<close>

text \<open>
  The bottles of one beer type that the batches of a dictionary have put into the
  inventory: \<open>2 * volume\<close> for each batch of that type whose flag
  \<^verbatim>\<open>bottles_put_in_inventory\<close> is set.
\<close>

definition bottles_credited :: "string \<Rightarrow> (string \<times> batch) list \<Rightarrow> int" where
  "bottles_credited t bs =
     (\<Sum>b\<leftarrow>map snd bs. if bottles_put_in_inventory b \<and> beer_type b = t then volume b * 2 else 0)"


text \<open>A tank is held by another active batch: one with a different id that is not finished.\<close>

definition held_by_other_active :: "state \<Rightarrow> string \<Rightarrow> string \<Rightarrow> bool" where
  "held_by_other_active s i tank \<longleftrightarrow>
     (\<exists>(j, b) \<in> set (batches s).
        j \<noteq> i \<and> phase_current b \<noteq> ''finished'' \<and> phase_current_tank b = tank)"

text \<open>A tank has the capability for a phase and the capacity for a volume.\<close>

definition tank_fits :: "string \<Rightarrow> string \<Rightarrow> int \<Rightarrow> bool" where
  "tank_fits tank phase vol \<longleftrightarrow>
     (case get_tank_value tank of
        Dict tank_value \<Rightarrow> phase \<in> set (capability tank_value) \<and> vol \<le> tank_volume tank_value
      | Other_attr \<Rightarrow> False)"

text \<open>
  What holds of the batches in every state the requests lead to: the ids are distinct; a
  batch in fermentation or conditioning is in a tank that fits; any other batch has no
  tank; and no tank is held by two batches.
\<close>

definition tanks_consistent :: "state \<Rightarrow> bool" where
  "tanks_consistent s \<longleftrightarrow>
     distinct (map fst (batches s))
     \<and> (\<forall>(i, b) \<in> set (batches s).
          if phase_current b \<in> set [''ferm'', ''cond'']
          then tank_fits (phase_current_tank b) (phase_current b) (volume b)
          else phase_current_tank b \<in> set ['''', ''not applicable''])
     \<and> (\<forall>(i, b) \<in> set (batches s). \<forall>(j, c) \<in> set (batches s).
          i \<noteq> j \<and> phase_current_tank b = phase_current_tank c
            \<longrightarrow> phase_current_tank b \<in> set ['''', ''not applicable''])"

section \<open>Planning the production\<close>

text \<open>
  The dictionaries \<^verbatim>\<open>three_month_end_inv\<close> and \<^verbatim>\<open>three_month_forecast\<close> map a beer
  type to the values of the three months. The list \<^verbatim>\<open>months\<close> of the source names
  the months; a month is addressed here by its index in that list.
\<close>

record months =
  this_month :: int
  next_month :: int
  third_month :: int

definition three_months_zero :: "(string \<times> months) list" where
  "three_months_zero =
     [(''dunkers'', \<lparr>this_month = 0, next_month = 0, third_month = 0\<rparr>),
      (''pilsner'', \<lparr>this_month = 0, next_month = 0, third_month = 0\<rparr>),
      (''red_helles'', \<lparr>this_month = 0, next_month = 0, third_month = 0\<rparr>)]"

definition get_month :: "nat \<Rightarrow> months \<Rightarrow> int" where
  "get_month index m =
     (if index = 0 then this_month m else if index = 1 then next_month m else third_month m)"

definition set_month :: "nat \<Rightarrow> int \<Rightarrow> months \<Rightarrow> months" where
  "set_month index n m =
     (if index = 0 then m\<lparr>this_month := n\<rparr>
      else if index = 1 then m\<lparr>next_month := n\<rparr>
      else m\<lparr>third_month := n\<rparr>)"

text \<open>\<^verbatim>\<open>three_months[beer_type][months[index]] += n\<close>\<close>

definition add_to_month ::
    "string \<Rightarrow> nat \<Rightarrow> int \<Rightarrow> (string \<times> months) list \<Rightarrow> error + (string \<times> months) list" where
  "add_to_month beer index n three_months =
     (case map_of three_months beer of
        None \<Rightarrow> Inl KeyError
      | Some m \<Rightarrow> Inr (AList.update beer (set_month index (get_month index m + n) m) three_months))"

text \<open>\<^verbatim>\<open>three_months[beer_type][months[index]] = n\<close>\<close>

definition assign_month ::
    "string \<Rightarrow> nat \<Rightarrow> int \<Rightarrow> (string \<times> months) list \<Rightarrow> error + (string \<times> months) list" where
  "assign_month beer index n three_months =
     (case map_of three_months beer of
        None \<Rightarrow> Inl KeyError
      | Some m \<Rightarrow> Inr (AList.update beer (set_month index n m) three_months))"

subsection \<open>When the batches in production will be finished\<close>

text \<open>
  The four variables \<^verbatim>\<open>end_phase4\<close>, \<^verbatim>\<open>end_phase3_4\<close>, \<^verbatim>\<open>end_phase2_4\<close> and
  \<^verbatim>\<open>end_phase1_4\<close>, in this order; \<open>None\<close> is the empty string.
\<close>

definition end_phases ::
    "batch \<Rightarrow> datetime option \<times> datetime option \<times> datetime option \<times> datetime option" where
  "end_phases b =
     (case time_end_phase4 b of
        Some t4 \<Rightarrow> (Some t4, None, None, None)
      | None \<Rightarrow>
          (case time_end_phase3 b of
             Some t3 \<Rightarrow> (None, Some (dt_add t3 (duration_phase4 (volume b))), None, None)
           | None \<Rightarrow>
               (case time_end_phase2 b of
                  Some t2 \<Rightarrow>
                    (None, None,
                     Some (dt_add (dt_add t2 (hours 336)) (duration_phase4 (volume b))), None)
                | None \<Rightarrow>
                    (case time_end_phase1 b of
                       Some t1 \<Rightarrow>
                         (None, None, None,
                          Some (dt_add (dt_add (dt_add t1 (hours 672)) (hours 336))
                                  (duration_phase4 (volume b))))
                     | None \<Rightarrow> (None, None, None, None)))))"

text \<open>The conditions of the chain of \<^verbatim>\<open>if\<close> and \<^verbatim>\<open>elif\<close>, which all have the same body.\<close>

definition end_month_matches ::
    "datetime option \<times> datetime option \<times> datetime option \<times> datetime option \<Rightarrow> nat \<Rightarrow> bool"
where
  "end_month_matches ends incre_month =
     (case ends of (end_phase4, end_phase3_4, end_phase2_4, end_phase1_4) \<Rightarrow>
        if end_phase4 \<noteq> None \<and> month (the end_phase4) = incre_month then True
        else if end_phase3_4 \<noteq> None \<and> month (the end_phase3_4) = incre_month then True
        else if end_phase2_4 \<noteq> None \<and> month (the end_phase2_4) = incre_month then True
        else if end_phase1_4 \<noteq> None \<and> month (the end_phase1_4) = incre_month then True
        else False)"

text \<open>The loop over the three months for one batch; \<open>incre_month\<close> is its counter.\<close>

fun month_loop ::
    "batch \<Rightarrow> nat list \<Rightarrow> nat \<Rightarrow> (string \<times> months) list \<Rightarrow> error + (string \<times> months) list"
where
  "month_loop b [] incre_month three_months = Inr three_months"
| "month_loop b (index # rest) incre_month three_months =
     (case (if end_month_matches (end_phases b) incre_month
            then add_to_month (beer_type b) index (volume b * 2) three_months
            else Inr three_months) of
        Inl e \<Rightarrow> Inl e
      | Inr three_months' \<Rightarrow>
          month_loop b rest (if incre_month + 1 = 13 then 1 else incre_month + 1) three_months')"

text \<open>The loop over the batches; a batch whose bottles are in the inventory is passed over.\<close>

fun batch_loop ::
    "datetime \<Rightarrow> batch list \<Rightarrow> (string \<times> months) list \<Rightarrow> error + (string \<times> months) list" where
  "batch_loop now [] three_months = Inr three_months"
| "batch_loop now (b # bs) three_months =
     (if bottles_put_in_inventory b then batch_loop now bs three_months
      else
        (case month_loop b [0, 1, 2] (month now) three_months of
           Inl e \<Rightarrow> Inl e
         | Inr three_months' \<Rightarrow> batch_loop now bs three_months'))"

text \<open>The inventory is added to the first month of each beer type.\<close>

fun add_inventory ::
    "inventory \<Rightarrow> string list \<Rightarrow> (string \<times> months) list \<Rightarrow> error + (string \<times> months) list" where
  "add_inventory ivt [] three_months = Inr three_months"
| "add_inventory ivt (beer # rest) three_months =
     (case get_inv_items_quantity ivt beer of
        Other_attr \<Rightarrow> Inl (subscript_error beer)
      | Dict num \<Rightarrow>
          (case add_to_month beer 0 num three_months of
             Inl e \<Rightarrow> Inl e
           | Inr three_months' \<Rightarrow> add_inventory ivt rest three_months'))"

subsection \<open>The forecast of the three months\<close>

text \<open>The dates \<^verbatim>\<open>dt1st_month\<close>, \<^verbatim>\<open>dt2nd_month\<close> and \<^verbatim>\<open>dt3rd_month\<close>.\<close>

definition forecast_dates :: "datetime \<Rightarrow> datetime \<times> datetime \<times> datetime" where
  "forecast_dates current_datetime =
     (let current_month = month current_datetime;
          current_year = year current_datetime;
          dt1st_month = first_of_month current_year current_month;
          number_days = monthrange current_year current_month;
          next_datetime = dt_add current_datetime (days (int number_days));
          next_month = month next_datetime;
          next_months_year = year next_datetime;
          dt2nd_month = first_of_month next_months_year next_month;
          number_days' = monthrange next_months_year next_month;
          third_datetime = dt_add next_datetime (days (int number_days'));
          third_month = month third_datetime;
          third_months_year = year third_datetime;
          dt3rd_month = first_of_month third_months_year third_month
      in (dt1st_month, dt2nd_month, dt3rd_month))"

text \<open>
  The three assignments in the \<^verbatim>\<open>try\<close> block: \<^verbatim>\<open>int\<close> is applied first, then the
  entry is assigned. A \<^verbatim>\<open>ValueError\<close> ends the block and is logged; any other error
  leaves the route.
\<close>

fun store_forecasts ::
    "string \<Rightarrow> (nat \<times> forecast_value) list \<Rightarrow> (string \<times> months) list
     \<Rightarrow> error + (string \<times> months) list" where
  "store_forecasts beer [] three_months = Inr three_months"
| "store_forecasts beer ((index, v) # rest) three_months =
     (case v of
        Mean n \<Rightarrow>
          (case assign_month beer index n three_months of
             Inl e \<Rightarrow> Inl e
           | Inr three_months' \<Rightarrow> store_forecasts beer rest three_months')
      | Not_a_number \<Rightarrow> Inr three_months
      | Infinite \<Rightarrow> Inl OverflowError
      | No_key \<Rightarrow> Inl KeyError)"

fun forecast_loop ::
    "datetime \<times> datetime \<times> datetime \<Rightarrow> (string \<times> forecast) list \<Rightarrow> (string \<times> months) list
     \<Rightarrow> error + (string \<times> months) list" where
  "forecast_loop dates [] three_months = Inr three_months"
| "forecast_loop dates ((beer, predicted_mean) # rest) three_months =
     (case dates of (dt1st_month, dt2nd_month, dt3rd_month) \<Rightarrow>
        let forecast_1st = predicted_mean dt1st_month;
            forecast_2nd = predicted_mean dt2nd_month;
            forecast_3rd = predicted_mean dt3rd_month
        in if forecast_1st = No_key \<or> forecast_2nd = No_key \<or> forecast_3rd = No_key
           then Inl KeyError
           else
             (case store_forecasts beer
                     [(0, forecast_1st), (1, forecast_2nd), (2, forecast_3rd)] three_months of
                Inl e \<Rightarrow> Inl e
              | Inr three_months' \<Rightarrow> forecast_loop dates rest three_months'))"

subsection \<open>The beer and the tank to use\<close>

definition sum_months :: "months \<Rightarrow> int" where
  "sum_months m = 0 + this_month m + next_month m + third_month m"

text \<open>The difference between the finished inventory and the forecast, for each beer.\<close>

fun differences ::
    "(string \<times> months) list \<Rightarrow> (string \<times> months) list \<Rightarrow> error + (string \<times> int) list" where
  "differences [] three_month_forecast = Inr []"
| "differences ((beer, m) # rest) three_month_forecast =
     (case map_of three_month_forecast beer of
        None \<Rightarrow> Inl KeyError
      | Some f \<Rightarrow>
          (case differences rest three_month_forecast of
             Inl e \<Rightarrow> Inl e
           | Inr ds \<Rightarrow> Inr ((beer, sum_months m - sum_months f) # ds)))"

text \<open>
  \<^verbatim>\<open>min(d, key=lambda k: d[k])\<close> and \<^verbatim>\<open>max(d, key=lambda k: d[k])\<close> for a
  dictionary \<open>d\<close> that is not empty: the keys are visited in their order, and a later key
  replaces the best one so far only if its value is strictly smaller or strictly greater.
\<close>

fun min_from :: "string \<times> int \<Rightarrow> (string \<times> int) list \<Rightarrow> string \<times> int" where
  "min_from best [] = best"
| "min_from best (x # xs) = min_from (if snd x < snd best then x else best) xs"

fun max_from :: "string \<times> int \<Rightarrow> (string \<times> int) list \<Rightarrow> string \<times> int" where
  "max_from best [] = best"
| "max_from best (x # xs) = max_from (if snd best < snd x then x else best) xs"

text \<open>The tanks that are free and can ferment, each with its volume.\<close>

fun capable_loop :: "string list \<Rightarrow> error + (string \<times> int) list" where
  "capable_loop [] = Inr []"
| "capable_loop (tank_name # rest) =
     (case get_tank_value tank_name of
        Other_attr \<Rightarrow> Inl (subscript_error tank_name)
      | Dict tank_value \<Rightarrow>
          (case capable_loop rest of
             Inl e \<Rightarrow> Inl e
           | Inr capable \<Rightarrow>
               if ''ferm'' \<in> set (capability tank_value)
               then Inr ((tank_name, tank_volume tank_value) # capable)
               else Inr capable))"

definition no_tank_available :: string where
  "no_tank_available =
     CHR 0x27 # ''currently no tank with right capability available'' @ [CHR 0x27]"

subsection \<open>The plan\<close>

text \<open>What the page of \<^verbatim>\<open>plan_production\<close> reports.\<close>

record report =
  three_month_end_inv :: "(string \<times> months) list"
  three_month_forecast :: "(string \<times> months) list"
  diff_3months_forecast_actual :: "(string \<times> int) list"
  produce_beer :: string
  capable_tanks :: "(string \<times> int) list"
  use_tank :: string
  use_tank_volume :: int

definition plan_production :: "datetime \<Rightarrow> state \<Rightarrow> response + report" where
  "plan_production now s =
     (if monthly_sales_forecasts s = [] then Inl (Msg No_prediction)
      else
        (case batch_loop now (map snd (batches s)) three_months_zero of
           Inl e \<Rightarrow> Inl (Raised e)
         | Inr end_inv \<Rightarrow>
        (case add_inventory (inventory s) (map fst end_inv) end_inv of
           Inl e \<Rightarrow> Inl (Raised e)
         | Inr end_inv' \<Rightarrow>
        (case forecast_loop (forecast_dates now) (monthly_sales_forecasts s)
                three_months_zero of
           Inl e \<Rightarrow> Inl (Raised e)
         | Inr forecast \<Rightarrow>
        (case differences end_inv' forecast of
           Inl e \<Rightarrow> Inl (Raised e)
         | Inr diffs \<Rightarrow>
        (case diffs of
           [] \<Rightarrow> Inl (Raised ValueError)
         | d # ds \<Rightarrow>
        (case capable_loop
                (filter (\<lambda>tank. tank \<notin> set (used_tanks (batches s))) get_tank_names) of
           Inl e \<Rightarrow> Inl (Raised e)
         | Inr capable \<Rightarrow>
             Inr \<lparr>three_month_end_inv = end_inv',
                  three_month_forecast = forecast,
                  diff_3months_forecast_actual = diffs,
                  produce_beer = fst (min_from d ds),
                  capable_tanks = capable,
                  use_tank =
                    (case capable of [] \<Rightarrow> no_tank_available | c # cs \<Rightarrow> fst (max_from c cs)),
                  use_tank_volume =
                    (case capable of [] \<Rightarrow> 0 | c # cs \<Rightarrow> snd (max_from c cs))\<rparr>)))))))"

text \<open>The invariant read through the lookup of the dictionary.\<close>

definition batch_tank_ok :: "batch \<Rightarrow> bool" where
  "batch_tank_ok b \<longleftrightarrow>
     (if phase_current b \<in> set [''ferm'', ''cond'']
      then tank_fits (phase_current_tank b) (phase_current b) (volume b)
      else phase_current_tank b \<in> set ['''', ''not applicable''])"

definition consistent_map :: "(string \<rightharpoonup> batch) \<Rightarrow> bool" where
  "consistent_map m \<longleftrightarrow>
     (\<forall>i b. m i = Some b \<longrightarrow> batch_tank_ok b)
     \<and> (\<forall>i b j c. m i = Some b \<longrightarrow> m j = Some c \<longrightarrow>
          i \<noteq> j \<longrightarrow> phase_current_tank b = phase_current_tank c \<longrightarrow>
          phase_current_tank b \<in> set ['''', ''not applicable''])"

text \<open>What one batch has put into the inventory of a beer type.\<close>

definition credit_of :: "string \<Rightarrow> batch \<Rightarrow> int" where
  "credit_of t b = (if bottles_put_in_inventory b \<and> beer_type b = t then volume b * 2 else 0)"

text \<open>The beer types, in the order of the keys of the dictionaries of the planner.\<close>

definition beer_types :: "string list" where
  "beer_types = [''dunkers'', ''pilsner'', ''red_helles'']"

text \<open>The calendar month after a month of a year.\<close>

definition following_month :: "int \<times> nat \<Rightarrow> int \<times> nat" where
  "following_month ym = (case ym of (y, m) \<Rightarrow> if m < 12 then (y, m + 1) else (y + 1, 1))"

text \<open>A tank is occupied: it is the tank of a batch that is not finished.\<close>

definition held_by_active :: "state \<Rightarrow> string \<Rightarrow> bool" where
  "held_by_active s tank \<longleftrightarrow>
     (\<exists>(j, b) \<in> set (batches s). phase_current b \<noteq> ''finished'' \<and> phase_current_tank b = tank)"

text \<open>A tank of the catalog that can ferment, and the volume of a tank of the catalog.\<close>

definition ferments :: "string \<Rightarrow> bool" where
  "ferments tank \<longleftrightarrow>
     (case get_tank_value tank of
        Dict tank_value \<Rightarrow> ''ferm'' \<in> set (capability tank_value)
      | Other_attr \<Rightarrow> False)"

definition volume_of :: "string \<Rightarrow> int" where
  "volume_of tank =
     (case get_tank_value tank of Dict tank_value \<Rightarrow> tank_volume tank_value | Other_attr \<Rightarrow> 0)"

text \<open>
  A forecast the planner can read: at each of the three dates it has a value, and
  \<^verbatim>\<open>int\<close> does not raise \<^verbatim>\<open>OverflowError\<close> for it.
\<close>

definition forecast_usable :: "datetime \<Rightarrow> forecast \<Rightarrow> bool" where
  "forecast_usable now f \<longleftrightarrow>
     (case forecast_dates now of (d1, d2, d3) \<Rightarrow>
        list_all (\<lambda>d. f d \<noteq> No_key \<and> f d \<noteq> Infinite) [d1, d2, d3])"

text \<open>
  When a batch is expected to be finished: the one of \<^verbatim>\<open>end_phase4\<close>,
  \<^verbatim>\<open>end_phase3_4\<close>, \<^verbatim>\<open>end_phase2_4\<close> and \<^verbatim>\<open>end_phase1_4\<close> that is set, if any.
\<close>

definition projected_finish :: "batch \<Rightarrow> datetime option" where
  "projected_finish b =
     (case end_phases b of (end_phase4, end_phase3_4, end_phase2_4, end_phase1_4) \<Rightarrow>
        if end_phase4 \<noteq> None then end_phase4
        else if end_phase3_4 \<noteq> None then end_phase3_4
        else if end_phase2_4 \<noteq> None then end_phase2_4
        else end_phase1_4)"

text \<open>The value of \<^verbatim>\<open>incre_month\<close> when the month with index \<open>k\<close> is visited.\<close>

fun bucket_month :: "nat \<Rightarrow> nat \<Rightarrow> nat" where
  "bucket_month m 0 = m"
| "bucket_month m (Suc k) = (if bucket_month m k + 1 = 13 then 1 else bucket_month m k + 1)"

text \<open>
  The bottles a batch brings to the month with index \<open>k\<close> of a beer type: those of a
  batch of this type, not yet in the inventory, that is expected to be finished in a month
  with the number of that month. The year of that date is not looked at.
\<close>

definition bottles_due :: "nat \<Rightarrow> nat \<Rightarrow> string \<Rightarrow> batch \<Rightarrow> int" where
  "bottles_due m k beer b =
     (if \<not> bottles_put_in_inventory b \<and> beer_type b = beer
         \<and> (case projected_finish b of Some t \<Rightarrow> month t = bucket_month m k | None \<Rightarrow> False)
      then volume b * 2 else 0)"

definition add3 :: "int \<Rightarrow> int \<Rightarrow> int \<Rightarrow> months \<Rightarrow> months" where
  "add3 a b c v =
     \<lparr>this_month = this_month v + a, next_month = next_month v + b,
      third_month = third_month v + c\<rparr>"

definition inventory_count :: "inventory \<Rightarrow> string \<Rightarrow> int" where
  "inventory_count ivt beer =
     (case get_inv_items_quantity ivt beer of Dict num \<Rightarrow> num | Other_attr \<Rightarrow> 0)"

section \<open>Example states\<close>

definition t0 :: datetime where
  "t0 = \<lparr>year = 2024, month = 3, day = 15, usec = 36000000000\<rparr>"

definition finished_batch :: batch where
  "finished_batch =
     (Batch_init ''b1'' ''pilsner'' 500)
       \<lparr>phase_current := ''finished'', phase_current_tank := ''not applicable'',
        phase_last_completed := ''bottling'', bottles_put_in_inventory := True,
        num_bottles_to_inv := Some 1000\<rparr>"

definition finished_state :: state where
  "finished_state =
     initial_state\<lparr>batches := [(''b1'', finished_batch)],
                   inventory := Inventory_init\<lparr>pilsner := 1000\<rparr>\<rparr>"

definition pilsner_order :: order where
  "pilsner_order =
     \<lparr>invoice_number = ''17'', customer = ''Inn'', date_required = ''01/04/2024'',
      recipe = ''pilsner'', gyle_number = ''3'', quantity_ordered = Some 100,
      dispatched = ''''\<rparr>"

definition order_state :: "int \<Rightarrow> state" where
  "order_state n =
     initial_state\<lparr>customer_orders := [(''17'', pilsner_order)],
                   inventory := Inventory_init\<lparr>pilsner := n\<rparr>\<rparr>"

definition tank_requests :: "(datetime \<times> request) list" where
  "tank_requests =
     [(t0, Add_delete_batch (Some ''b1'') (Inr 900) ''pilsner'' None),
      (t0, Add_delete_batch (Some ''b2'') (Inr 700) ''dunkers'' None),
      (t0, Change_batchs_phase (Some ''b1'') ''ferm'' ''albert'')]"

definition fresh_state :: state where
  "fresh_state =
     run [(t0, Add_delete_batch (Some ''b1'') (Inr 500) ''pilsner'' None)] initial_state"

definition finish_twice :: "(datetime \<times> request) list" where
  "finish_twice =
     [(t0, Change_batchs_phase (Some ''b1'') ''finished'' ''not applicable''),
      (t0, Change_batchs_phase (Some ''b1'') ''finished'' ''not applicable'')]"


text \<open>A forecast of \<open>n\<close> bottles for March 2024 and of none for any other month.\<close>

definition march_forecast :: "int \<Rightarrow> forecast" where
  "march_forecast n = (\<lambda>date. if date = first_of_month 2024 3 then Mean n else Mean 0)"


text \<open>Two batches, the first one fermenting in \<^verbatim>\<open>albert\<close>, and a forecast.\<close>

definition plan_requests :: "(datetime \<times> request) list" where
  "plan_requests =
     tank_requests
     @ [(t0, Predict_sales [(''dunkers'', march_forecast 50), (''pilsner'', march_forecast 30),
                            (''red_helles'', march_forecast 20)])]"

text \<open>Seven batches that ferment in the seven tanks that can ferment, and a forecast.\<close>

definition full_requests :: "(datetime \<times> request) list" where
  "full_requests =
     [(t0, Add_delete_batch (Some ''b1'') (Inr 500) ''pilsner'' None),
      (t0, Change_batchs_phase (Some ''b1'') ''ferm'' ''albert''),
      (t0, Add_delete_batch (Some ''b2'') (Inr 500) ''pilsner'' None),
      (t0, Change_batchs_phase (Some ''b2'') ''ferm'' ''brigadier''),
      (t0, Add_delete_batch (Some ''b3'') (Inr 500) ''pilsner'' None),
      (t0, Change_batchs_phase (Some ''b3'') ''ferm'' ''camilla''),
      (t0, Add_delete_batch (Some ''b4'') (Inr 500) ''pilsner'' None),
      (t0, Change_batchs_phase (Some ''b4'') ''ferm'' ''dylon''),
      (t0, Add_delete_batch (Some ''b5'') (Inr 500) ''pilsner'' None),
      (t0, Change_batchs_phase (Some ''b5'') ''ferm'' ''emily''),
      (t0, Add_delete_batch (Some ''b6'') (Inr 500) ''pilsner'' None),
      (t0, Change_batchs_phase (Some ''b6'') ''ferm'' ''florence''),
      (t0, Add_delete_batch (Some ''b7'') (Inr 500) ''pilsner'' None),
      (t0, Change_batchs_phase (Some ''b7'') ''ferm'' ''r2d2''),
      (t0, Predict_sales [(''dunkers'', march_forecast 50), (''pilsner'', march_forecast 30),
                            (''red_helles'', march_forecast 20)])]"

text \<open>
  A batch of 500 litres put to bottling on 10 March 2023 and left there, and the same
  batch put to bottling on 15 March 2024; in both states a forecast is stored.
\<close>

definition t_old :: datetime where
  "t_old = \<lparr>year = 2023, month = 3, day = 10, usec = 36000000000\<rparr>"

definition t_dec :: datetime where
  "t_dec = \<lparr>year = 2024, month = 12, day = 10, usec = 36000000000\<rparr>"

definition bottling_requests :: "datetime \<Rightarrow> (datetime \<times> request) list" where
  "bottling_requests t =
     [(t, Add_delete_batch (Some ''b1'') (Inr 500) ''pilsner'' None),
      (t, Change_batchs_phase (Some ''b1'') ''bottling'' ''not applicable''),
      (t0, Predict_sales [(''dunkers'', march_forecast 50), (''pilsner'', march_forecast 30),
                          (''red_helles'', march_forecast 20)])]"

definition t_jan31 :: datetime where
  "t_jan31 = \<lparr>year = 2023, month = 1, day = 31, usec = 36000000000\<rparr>"

section \<open>The tank catalog\<close>

text \<open>
  Claim C8, as the code has it. \<open>get_tank_names\<close> lists the nine tanks of the
  catalog, and for each of them \<open>get_tank_value\<close> returns the capabilities and the
  volume \<^verbatim>\<open>Tanks.__init__\<close> stores. For a name that is not in the catalog and is no
  other attribute of the object, the lookup does not fail: it returns a tank value with
  the single capability \<^verbatim>\<open>""\<close> and volume 0.
\<close>

theorem get_tank_value_catalog_or_default:
  "get_tank_names =
     [''albert'', ''brigadier'', ''camilla'', ''dylon'', ''emily'', ''florence'',
      ''gertrude'', ''harry'', ''r2d2'']
   \<and> get_tank_value ''albert'' = Dict \<lparr>capability = [''ferm'', ''cond''], tank_volume = 1000\<rparr>
   \<and> get_tank_value ''brigadier'' = Dict \<lparr>capability = [''ferm'', ''cond''], tank_volume = 800\<rparr>
   \<and> get_tank_value ''camilla'' = Dict \<lparr>capability = [''ferm'', ''cond''], tank_volume = 1000\<rparr>
   \<and> get_tank_value ''dylon'' = Dict \<lparr>capability = [''ferm'', ''cond''], tank_volume = 800\<rparr>
   \<and> get_tank_value ''emily'' = Dict \<lparr>capability = [''ferm'', ''cond''], tank_volume = 1000\<rparr>
   \<and> get_tank_value ''florence'' = Dict \<lparr>capability = [''ferm'', ''cond''], tank_volume = 800\<rparr>
   \<and> get_tank_value ''gertrude'' = Dict \<lparr>capability = [''cond''], tank_volume = 680\<rparr>
   \<and> get_tank_value ''harry'' = Dict \<lparr>capability = [''cond''], tank_volume = 680\<rparr>
   \<and> get_tank_value ''r2d2'' = Dict \<lparr>capability = [''ferm''], tank_volume = 800\<rparr>
   \<and> (tank_name \<notin> set get_tank_names \<longrightarrow> tank_name \<notin> set (Tanks_methods @ object_attrs) \<longrightarrow>
        get_tank_value tank_name = Dict \<lparr>capability = [''''], tank_volume = 0\<rparr>)"
proof -
  have names: "get_tank_names =
     [''albert'', ''brigadier'', ''camilla'', ''dylon'', ''emily'', ''florence'',
      ''gertrude'', ''harry'', ''r2d2'']"
    by (simp add: get_tank_names_def Tanks_init_def)
  have dflt: "get_tank_value tank_name = Dict \<lparr>capability = [''''], tank_volume = 0\<rparr>"
    if "tank_name \<notin> set get_tank_names" "tank_name \<notin> set (Tanks_methods @ object_attrs)"
  proof -
    have "map_of Tanks_init tank_name = None"
      using that(1) by (simp add: map_of_eq_None_iff get_tank_names_def)
    then show ?thesis using that(2) by (simp add: get_tank_value_def)
  qed
  show ?thesis
    using names dflt by (simp add: get_tank_value_def Tanks_init_def)
qed

theorem get_tank_value_witness:
  "''zed'' \<notin> set get_tank_names \<and> ''zed'' \<notin> set (Tanks_methods @ object_attrs)
   \<and> get_tank_value ''zed'' = Dict \<lparr>capability = [''''], tank_volume = 0\<rparr>"
  using get_tank_value_catalog_or_default [of "''zed''"]
  by (simp add: Tanks_methods_def object_attrs_def get_tank_names_def Tanks_init_def)

text \<open>The claim as stated fails at the name \<^verbatim>\<open>zed\<close>, which a value is returned for.\<close>

theorem get_tank_value_unknown_counterexample:
  "''zed'' \<notin> set get_tank_names
   \<and> get_tank_value ''zed'' = Dict \<lparr>capability = [''''], tank_volume = 0\<rparr>"
  by (simp add: get_tank_value_def get_tank_names_def Tanks_init_def Tanks_methods_def
      object_attrs_def)

section \<open>Requests the phase change does not act on\<close>

text \<open>
  Claim C9, where the code departs from it. The route evaluates \<^verbatim>\<open>batches[id_input]\<close>
  without a test that the id is a key of the batches, a test the routes beside it make
  with \<^verbatim>\<open>.get\<close> and \<^verbatim>\<open>in\<close>. For an id that is no key the lookup raises
  \<^verbatim>\<open>KeyError\<close>, which nothing catches: the route ends with that error and returns no
  answer of its own, neither its page nor a message. Nothing is assigned before the
  lookup, so the state after the call is the state before.
\<close>

theorem change_batchs_phase_unknown_id:
  assumes "i \<notin> fst ` set (batches s)"
  shows "change_batchs_phase now (Some i) phase_input tank_input s = (Raised KeyError, s)
       \<and> fst (change_batchs_phase now (Some i) phase_input tank_input s) \<noteq> Page
       \<and> fst (change_batchs_phase now (Some i) phase_input tank_input s)
           \<notin> range Msg"
proof -
  from assms have "map_of (batches s) i = None"
    by (simp add: map_of_eq_None_iff)
  then show ?thesis
    by (auto simp: change_batchs_phase_def)
qed

theorem change_batchs_phase_unknown_id_witness:
  "''b7'' \<notin> fst ` set (batches finished_state)
   \<and> batches finished_state \<noteq> []
   \<and> change_batchs_phase t0 (Some ''b7'') ''ferm'' ''albert'' finished_state
       = (Raised KeyError, finished_state)"
  using change_batchs_phase_unknown_id [of "''b7''" finished_state t0 "''ferm''" "''albert''"]
  by (simp add: finished_state_def)

text \<open>
  Claim C7, as the code has it. A phase change requested for a batch whose current phase
  is \<^verbatim>\<open>finished\<close> is ignored: the answer is the ordinary page of the route, not a
  refusal, and the whole state (the phase, tank, times and flag of the batch, and the
  inventory) is as before the call.
\<close>

theorem change_batchs_phase_finished_ignored:
  assumes "map_of (batches s) i = Some b" and "phase_current b = ''finished''"
  shows "change_batchs_phase now (Some i) phase_input tank_input s = (Page, s)"
  using assms by (simp add: change_batchs_phase_def)

theorem change_batchs_phase_finished_ignored_witness:
  "map_of (batches finished_state) ''b1'' = Some finished_batch
   \<and> phase_current finished_batch = ''finished''
   \<and> change_batchs_phase t0 (Some ''b1'') ''hot brewing'' ''not applicable'' finished_state
       = (Page, finished_state)"
  using change_batchs_phase_finished_ignored
          [of finished_state "''b1''" finished_batch t0 "''hot brewing''" "''not applicable''"]
  by (simp add: finished_state_def finished_batch_def initial_state_def)

text \<open>
  The claim as stated fails for the finished batch \<^verbatim>\<open>b1\<close>: the request gets the
  ordinary page as its answer.
\<close>

theorem change_batchs_phase_finished_counterexample:
  "phase_current (the (map_of (batches finished_state) ''b1'')) = ''finished''
   \<and> fst (change_batchs_phase t0 (Some ''b1'') ''hot brewing'' ''not applicable'' finished_state)
       = Page"
  by (simp add: change_batchs_phase_def finished_state_def finished_batch_def initial_state_def)

section \<open>Dispatching an order\<close>

text \<open>
  Claim C3. Dispatching a registered order that is not yet dispatched, for one of the
  three beer types of the inventory: when the inventory holds fewer bottles of that type
  than the order asks for, the answer is the message that not enough bottles are in stock
  and the state, with the inventory and the order, is unchanged; otherwise the count of
  that type goes down by exactly the quantity ordered and is not negative afterwards, the
  other counts stay, the order is marked dispatched, and nothing else changes.
\<close>

theorem dispatch_checks_stock:
  assumes ord: "map_of (customer_orders s) d = Some ord"
    and pending: "dispatched ord \<noteq> ''dispatched''"
    and quantity: "quantity_ordered ord = Some quantity"
    and known: "recipe ord \<in> set get_inv_items_names"
    and num: "get_inv_items_quantity (inventory s) (recipe ord) = Dict num"
    and res: "register_dispatch_delete_order None customer_input date_required_input
                recipe_input gyle_number_input quantity_input (Some d) delete_order s = (r, s')"
  shows "(num < quantity \<longrightarrow> r = Msg (Not_enough_bottles (recipe ord)) \<and> s' = s)
       \<and> (quantity \<le> num \<longrightarrow>
            r = Page
            \<and> get_inv_items_quantity (inventory s') (recipe ord) = Dict (num - quantity)
            \<and> 0 \<le> num - quantity
            \<and> (\<forall>other. other \<noteq> recipe ord \<longrightarrow>
                 get_inv_items_quantity (inventory s') other
                   = get_inv_items_quantity (inventory s) other)
            \<and> map_of (customer_orders s') d = Some (ord\<lparr>dispatched := ''dispatched''\<rparr>)
            \<and> (\<forall>d'. d' \<noteq> d \<longrightarrow> map_of (customer_orders s') d' = map_of (customer_orders s) d')
            \<and> batches s' = batches s)"
proof (cases "quantity \<le> num")
  case False
  with assms show ?thesis
    by (simp add: register_dispatch_delete_order_def)
next
  case True
  with ord pending quantity num res
  have r: "r = Page"
    and s': "s' = s\<lparr>inventory :=
                       set_inv_items_quantity (inventory s) (recipe ord) (num - quantity),
                     customer_orders :=
                       AList.update d (ord\<lparr>dispatched := ''dispatched''\<rparr>) (customer_orders s)\<rparr>"
    by (auto simp: register_dispatch_delete_order_def)
  have inv: "get_inv_items_quantity
               (set_inv_items_quantity (inventory s) (recipe ord) (num - quantity)) (recipe ord)
             = Dict (num - quantity)"
    using known
    by (auto simp: get_inv_items_names_def get_inv_items_quantity_def set_inv_items_quantity_def)
  have others: "get_inv_items_quantity
               (set_inv_items_quantity (inventory s) (recipe ord) (num - quantity)) other
             = get_inv_items_quantity (inventory s) other" if "other \<noteq> recipe ord" for other
    using known that
    by (auto simp: get_inv_items_names_def get_inv_items_quantity_def set_inv_items_quantity_def)
  show ?thesis
    using True r inv others by (simp add: s' update_conv')
qed

text \<open>
  The scenario of the specification: an order for 100 bottles of pilsner against 40 in
  stock is refused and the 40 remain; against 140 in stock it leaves 40.
\<close>

theorem dispatch_checks_stock_witness:
  "register_dispatch_delete_order None '''' None '''' '''' None (Some ''17'') None (order_state 40)
     = (Msg (Not_enough_bottles ''pilsner''), order_state 40)
   \<and> pilsner (inventory (order_state 40)) = 40
   \<and> fst (register_dispatch_delete_order None '''' None '''' '''' None (Some ''17'') None
            (order_state 140)) = Page
   \<and> pilsner (inventory (snd (register_dispatch_delete_order None '''' None '''' '''' None
            (Some ''17'') None (order_state 140)))) = 40"
proof -
  have a: "map_of (customer_orders (order_state n)) ''17'' = Some pilsner_order" for n
    by (simp add: order_state_def)
  have b: "dispatched pilsner_order \<noteq> ''dispatched''"
    and c: "quantity_ordered pilsner_order = Some 100"
    and e: "recipe pilsner_order \<in> set get_inv_items_names"
    by (simp_all add: pilsner_order_def get_inv_items_names_def)
  have f: "get_inv_items_quantity (inventory (order_state n)) (recipe pilsner_order) = Dict n"
    for n
    by (simp add: order_state_def pilsner_order_def get_inv_items_quantity_def Inventory_init_def)
  obtain r1 s1 where r1: "register_dispatch_delete_order None '''' None '''' '''' None
      (Some ''17'') None (order_state 40) = (r1, s1)" by force
  obtain r2 s2 where r2: "register_dispatch_delete_order None '''' None '''' '''' None
      (Some ''17'') None (order_state 140) = (r2, s2)" by force
  note w1 = dispatch_checks_stock [OF a b c e f r1]
  note w2 = dispatch_checks_stock [OF a b c e f r2]
  from w1 have "r1 = Msg (Not_enough_bottles ''pilsner'') \<and> s1 = order_state 40"
    by (simp add: pilsner_order_def)
  moreover from w2 have "r2 = Page \<and> get_inv_items_quantity (inventory s2) ''pilsner'' = Dict 40"
    by (simp add: pilsner_order_def)
  moreover have "pilsner (inventory (order_state 40)) = 40"
    by (simp add: order_state_def Inventory_init_def)
  ultimately show ?thesis
    using r1 r2 by (simp add: get_inv_items_quantity_def)
qed

section \<open>Tanks and batches in the states the requests lead to\<close>

lemma tank_fits_catalog:
  "tank_fits tank phase vol \<Longrightarrow> phase \<in> set [''ferm'', ''cond''] \<Longrightarrow> tank \<in> set get_tank_names"
  by (force simp: tank_fits_def get_tank_value_def get_tank_names_def map_of_eq_None_iff
      split: option.splits if_splits attr.splits dest!: map_of_SomeD)

lemma catalog_not_blank:
  "tank \<in> set get_tank_names \<Longrightarrow> tank \<noteq> '''' \<and> tank \<noteq> ''not applicable''"
  by (auto simp: get_tank_names_def Tanks_init_def)

lemma set_phase_keeps:
  "set_phase_start_end_datetimes now b ivt = (b', ivt') \<Longrightarrow>
     phase_current b' = phase_current b \<and> phase_current_tank b' = phase_current_tank b
     \<and> volume b' = volume b \<and> beer_type b' = beer_type b \<and> batch_id b' = batch_id b"
  by (auto simp: set_phase_start_end_datetimes_def put_bottles_in_inventory_def Let_def
      split: if_splits)

lemma in_used_tanks:
  "tank \<in> set (used_tanks bs) \<longleftrightarrow> tank \<noteq> '''' \<and> (\<exists>(j, c) \<in> set bs. phase_current_tank c = tank)"
  by (force simp: used_tanks_def)

lemma in_available_tanks:
  "tank \<in> set (available_tanks bs b) \<longleftrightarrow>
     (tank \<in> set get_tank_names \<and> tank \<notin> set (used_tanks bs))
     \<or> (tank = phase_current_tank b \<and> tank \<noteq> '''')"
  by (auto simp: available_tanks_def)

lemma tanks_consistent_map:
  "tanks_consistent s \<longleftrightarrow>
     distinct (map fst (batches s)) \<and> consistent_map (map_of (batches s))"
proof (cases "distinct (map fst (batches s))")
  case False
  then show ?thesis by (simp add: tanks_consistent_def)
next
  case True
  have "tanks_consistent s \<longleftrightarrow> consistent_map (map_of (batches s))"
    unfolding tanks_consistent_def consistent_map_def batch_tank_ok_def
      map_of_eq_Some_iff [OF True]
    using True by (simp only: split_paired_all case_prod_conv Ball_def simp_thms) blast
  with True show ?thesis by simp
qed

lemma consistent_map_upd:
  assumes "consistent_map m" and "batch_tank_ok b"
    and "\<And>j c. j \<noteq> i \<Longrightarrow> m j = Some c \<Longrightarrow> phase_current_tank c = phase_current_tank b
           \<Longrightarrow> phase_current_tank b \<in> set ['''', ''not applicable'']"
  shows "consistent_map (m(i \<mapsto> b))"
  unfolding consistent_map_def
proof (intro conjI allI impI)
  fix k c assume "(m(i \<mapsto> b)) k = Some c"
  with assms(1,2) show "batch_tank_ok c"
    by (auto simp: consistent_map_def split: if_splits)
next
  fix k c j e
  assume a: "(m(i \<mapsto> b)) k = Some c" "(m(i \<mapsto> b)) j = Some e" "k \<noteq> j"
    "phase_current_tank c = phase_current_tank e"
  show "phase_current_tank c \<in> set ['''', ''not applicable'']"
  proof (cases "k = i")
    case True
    with a have "c = b" "m j = Some e" "j \<noteq> i" by auto
    with assms(3) [of j e] a(4) show ?thesis by simp
  next
    case k: False
    show ?thesis
    proof (cases "j = i")
      case True
      with a k have "e = b" "m k = Some c" by auto
      with assms(3) [of k c] a(4) k show ?thesis by simp
    next
      case False
      with a k have "m k = Some c" "m j = Some e" by auto
      with assms(1) a(3,4) show ?thesis
        unfolding consistent_map_def by blast
    qed
  qed
qed

lemma consistent_map_del:
  assumes "consistent_map m"
  shows "consistent_map (m(i := None))"
  using assms unfolding consistent_map_def
  by (simp split: if_splits)

lemma tanks_consistent_initial: "tanks_consistent initial_state"
  by (simp add: tanks_consistent_def initial_state_def)

lemma tanks_consistent_add_delete:
  assumes "tanks_consistent s"
  shows "tanks_consistent (snd (add_delete_batch i v t d s))"
proof -
  have new: "batch_tank_ok (Batch_init k t' vol)" for k t' vol
    by (simp add: batch_tank_ok_def Batch_init_def)
  have tank_new: "phase_current_tank (Batch_init k t' vol) = ''''" for k t' vol
    by (simp add: Batch_init_def)
  from assms have d: "distinct (map fst (batches s))"
    and c: "consistent_map (map_of (batches s))"
    by (simp_all add: tanks_consistent_map)
  have add: "tanks_consistent (s\<lparr>batches := AList.update k (Batch_init k t' vol) (batches s)\<rparr>)"
    for k t' vol
    unfolding tanks_consistent_map
    using d by (simp add: distinct_update update_conv' consistent_map_upd [OF c new] tank_new)
  have del: "tanks_consistent (s\<lparr>batches := AList.delete k (batches s)\<rparr>)" for k
    unfolding tanks_consistent_map
    using d by (simp add: distinct_delete delete_conv' consistent_map_del [OF c])
  show ?thesis
    using assms add del
    by (simp add: add_delete_batch_def Let_def split: option.splits sum.splits)
qed

lemma change_batch_batches:
  assumes "set_phase_start_end_datetimes now
             (b\<lparr>phase_current := p, phase_current_tank := t\<rparr>) (inventory s) = (b', ivt')"
  shows "change_batch now i b p t s = s\<lparr>batches := AList.update i b' (batches s), inventory := ivt'\<rparr>"
  using assms by (simp add: change_batch_def)

lemma tanks_consistent_change_batch:
  assumes tc: "tanks_consistent s"
    and ok: "if p \<in> set [''ferm'', ''cond''] then tank_fits t p (volume b)
             else t \<in> set ['''', ''not applicable'']"
    and free: "\<And>j c. j \<noteq> i \<Longrightarrow> map_of (batches s) j = Some c \<Longrightarrow> phase_current_tank c = t
                 \<Longrightarrow> t \<in> set ['''', ''not applicable'']"
  shows "tanks_consistent (change_batch now i b p t s)"
proof -
  obtain b' ivt' where r: "set_phase_start_end_datetimes now
             (b\<lparr>phase_current := p, phase_current_tank := t\<rparr>) (inventory s) = (b', ivt')"
    by force
  from set_phase_keeps [OF r]
  have k: "phase_current b' = p" "phase_current_tank b' = t" "volume b' = volume b"
    by simp_all
  from tc have d: "distinct (map fst (batches s))"
    and c: "consistent_map (map_of (batches s))"
    by (simp_all add: tanks_consistent_map)
  have b'ok: "batch_tank_ok b'"
    using ok unfolding batch_tank_ok_def k by simp
  have "consistent_map ((map_of (batches s))(i \<mapsto> b'))"
    using free by (intro consistent_map_upd [OF c b'ok]) (simp add: k)
  then show ?thesis
    unfolding change_batch_batches [OF r] tanks_consistent_map
    using d by (simp add: distinct_update update_conv')
qed

lemma available_free:
  assumes tc: "tanks_consistent s" and b: "map_of (batches s) i = Some b"
    and av: "t \<in> set (available_tanks (batches s) b)"
    and other: "j \<noteq> i" "map_of (batches s) j = Some c" "phase_current_tank c = t"
  shows "t \<in> set ['''', ''not applicable'']"
proof -
  from tc have d: "distinct (map fst (batches s))"
    and c: "consistent_map (map_of (batches s))"
    by (simp_all add: tanks_consistent_map)
  from other(2) d have cin: "(j, c) \<in> set (batches s)" by simp
  from av consider
      (fresh) "t \<in> set get_tank_names" "t \<notin> set (used_tanks (batches s))"
    | (own) "t = phase_current_tank b" "t \<noteq> ''''"
    unfolding in_available_tanks by blast
  then show ?thesis
  proof cases
    case fresh
    from fresh(1) have "t \<noteq> ''''" using catalog_not_blank by blast
    with cin other(3) have "t \<in> set (used_tanks (batches s))"
      unfolding in_used_tanks by blast
    with fresh(2) show ?thesis by simp
  next
    case own
    with c b other show ?thesis
      unfolding consistent_map_def by (metis (no_types))
  qed
qed

lemma tanks_consistent_change:
  assumes tc: "tanks_consistent s"
  shows "tanks_consistent (snd (change_batchs_phase now id_input p t s))"
proof (cases id_input)
  case None
  with tc show ?thesis by (simp add: change_batchs_phase_def)
next
  case (Some i)
  show ?thesis
  proof (cases "map_of (batches s) i")
    case None
    with Some tc show ?thesis by (simp add: change_batchs_phase_def)
  next
    case (Some b)
    have plain: "tanks_consistent (change_batch now i b p t s)"
      if "p \<in> set [''hot brewing'', ''bottling'', ''finished'']" "t = ''not applicable''"
      using that by (intro tanks_consistent_change_batch [OF tc]) auto
    have tank: "tanks_consistent (change_batch now i b p t s)"
      if "p \<in> set [''ferm'', ''cond'']" "t \<in> set (available_tanks (batches s) b)"
         "get_tank_value t = Dict tv" "p \<in> set (capability tv)" "volume b \<le> tank_volume tv"
        for tv
    proof (rule tanks_consistent_change_batch [OF tc])
      show "if p \<in> set [''ferm'', ''cond''] then tank_fits t p (volume b)
            else t \<in> set ['''', ''not applicable'']"
        using that by (simp add: tank_fits_def)
    next
      fix j c assume "j \<noteq> i" "map_of (batches s) j = Some c" "phase_current_tank c = t"
      then show "t \<in> set ['''', ''not applicable'']"
        using available_free [OF tc Some that(2)] by blast
    qed
    show ?thesis
      using \<open>id_input = Some i\<close> Some tc plain tank
      by (auto simp: change_batchs_phase_def split: attr.splits)
  qed
qed

lemma batches_register_dispatch_delete_order:
  "batches (snd (register_dispatch_delete_order n c d r g q di de s)) = batches s"
  by (simp add: register_dispatch_delete_order_def Let_def
      split: option.splits attr.splits prod.splits)

lemma tanks_consistent_batches:
  "batches s' = batches s \<Longrightarrow> tanks_consistent s \<Longrightarrow> tanks_consistent s'"
  by (simp add: tanks_consistent_def)

lemma tanks_consistent_handle:
  assumes "tanks_consistent s"
  shows "tanks_consistent (snd (handle now q s))"
proof (cases q)
  case (Add_delete_batch i v t d)
  with assms show ?thesis by (simp add: tanks_consistent_add_delete)
next
  case (Change_batchs_phase i p t)
  with assms show ?thesis by (simp add: tanks_consistent_change)
next
  case (Register_dispatch_delete_order n c d r g q' di de)
  with assms show ?thesis
    using tanks_consistent_batches [OF batches_register_dispatch_delete_order]
    by simp
next
  case (Predict_sales fs)
  with assms show ?thesis
    by (simp add: tanks_consistent_def)
qed

lemma tanks_consistent_run:
  "tanks_consistent s \<Longrightarrow> tanks_consistent (run qs s)"
  by (induction qs arbitrary: s) (auto simp: tanks_consistent_handle)

lemma change_response_tank:
  assumes "map_of (batches s) i = Some b" "phase_current b \<noteq> ''finished''"
    "p \<in> set [''ferm'', ''cond'']"
  shows "fst (change_batchs_phase now (Some i) p t s) = Page \<longleftrightarrow>
           t \<noteq> ''not applicable'' \<and> t \<in> set (available_tanks (batches s) b)
           \<and> tank_fits t p (volume b)"
  using assms
  by (auto simp: change_batchs_phase_def tank_fits_def split: attr.splits)

lemma change_shape:
  "snd (change_batchs_phase now id_input p t s) = s
   \<or> fst (change_batchs_phase now id_input p t s) = Page"
  by (simp add: change_batchs_phase_def split: option.splits attr.splits)

lemma change_rejected_same:
  "fst (change_batchs_phase now id_input p t s) \<noteq> Page \<Longrightarrow>
     snd (change_batchs_phase now id_input p t s) = s"
  using change_shape by blast

lemma change_accepted_batch:
  assumes "map_of (batches s) i = Some b" "phase_current b \<noteq> ''finished''"
    "p \<in> set [''ferm'', ''cond'']"
    "fst (change_batchs_phase now (Some i) p t s) = Page"
  shows "snd (change_batchs_phase now (Some i) p t s) = change_batch now i b p t s"
proof -
  have "fst (change_batchs_phase now (Some i) p t s) \<noteq> Page
     \<or> snd (change_batchs_phase now (Some i) p t s) = change_batch now i b p t s"
    using assms(1-3) by (simp add: change_batchs_phase_def split: attr.splits)
  with assms(4) show ?thesis by blast
qed

lemma change_batch_lookup:
  "\<exists>b'. map_of (batches (change_batch now i b p t s)) i = Some b'
        \<and> phase_current b' = p \<and> phase_current_tank b' = t \<and> volume b' = volume b"
proof -
  obtain b' ivt' where r: "set_phase_start_end_datetimes now
             (b\<lparr>phase_current := p, phase_current_tank := t\<rparr>) (inventory s) = (b', ivt')"
    by force
  from set_phase_keeps [OF r] show ?thesis
    unfolding change_batch_batches [OF r] by (simp add: update_conv')
qed

lemma available_iff_not_held:
  assumes tc: "tanks_consistent s" and b: "map_of (batches s) i = Some b"
    and fits: "tank_fits t p vol" and p: "p \<in> set [''ferm'', ''cond'']"
  shows "t \<in> set (available_tanks (batches s) b) \<longleftrightarrow> \<not> held_by_other_active s i t"
proof -
  from tc have d: "distinct (map fst (batches s))"
    and c: "consistent_map (map_of (batches s))"
    by (simp_all add: tanks_consistent_map)
  from tank_fits_catalog [OF fits p] have cat: "t \<in> set get_tank_names" .
  with catalog_not_blank have nb: "t \<noteq> ''''" "t \<noteq> ''not applicable''" by blast+
  show ?thesis
  proof
    assume av: "t \<in> set (available_tanks (batches s) b)"
    show "\<not> held_by_other_active s i t"
    proof
      assume "held_by_other_active s i t"
      then obtain j c where jc: "(j, c) \<in> set (batches s)" "j \<noteq> i" "phase_current_tank c = t"
        unfolding held_by_other_active_def by blast
      from jc(1) d have "map_of (batches s) j = Some c" by simp
      from available_free [OF tc b av jc(2) this jc(3)] nb show False by simp
    qed
  next
    assume nh: "\<not> held_by_other_active s i t"
    show "t \<in> set (available_tanks (batches s) b)"
    proof (cases "t = phase_current_tank b")
      case True
      with nb show ?thesis by (simp add: in_available_tanks)
    next
      case False
      have "t \<notin> set (used_tanks (batches s))"
      proof
        assume "t \<in> set (used_tanks (batches s))"
        then obtain j e where je: "(j, e) \<in> set (batches s)" "phase_current_tank e = t"
          unfolding in_used_tanks by blast
        from je(1) d have m: "map_of (batches s) j = Some e" by simp
        have "j \<noteq> i" using m b False je(2) by auto
        with nh je have fin: "phase_current e = ''finished''"
          unfolding held_by_other_active_def by blast
        from c m have "batch_tank_ok e" unfolding consistent_map_def by blast
        with fin je(2) nb show False by (simp add: batch_tank_ok_def)
      qed
      with cat show ?thesis by (simp add: in_available_tanks)
    qed
  qed
qed

text \<open>
  Claim C4. In a state reached from the initial one by any sequence of requests, for a
  batch that is not finished, a request to change its phase to fermentation or
  conditioning is accepted if and only if the tank named is not held by another active
  batch (the batch's own tank does not count), has the capability for that phase and has a
  volume of at least the volume of the batch. An accepted request puts the batch in that
  phase and tank; a refused one leaves the state as it was. So in every such state each
  batch in fermentation or conditioning is in a tank with that capability and a
  sufficient volume.
\<close>

theorem tank_request_accepted_iff:
  assumes reach: "s = run qs initial_state"
    and b: "map_of (batches s) i = Some b"
    and active: "phase_current b \<noteq> ''finished''"
    and p: "p \<in> set [''ferm'', ''cond'']"
  shows "(fst (change_batchs_phase now (Some i) p t s) = Page
            \<longleftrightarrow> \<not> held_by_other_active s i t \<and> tank_fits t p (volume b))
       \<and> (fst (change_batchs_phase now (Some i) p t s) = Page \<longrightarrow>
            (\<exists>b'. map_of (batches (snd (change_batchs_phase now (Some i) p t s))) i = Some b'
                   \<and> phase_current b' = p \<and> phase_current_tank b' = t \<and> volume b' = volume b))
       \<and> (fst (change_batchs_phase now (Some i) p t s) \<noteq> Page \<longrightarrow>
            snd (change_batchs_phase now (Some i) p t s) = s)
       \<and> (\<forall>j c. map_of (batches s) j = Some c \<longrightarrow> phase_current c \<in> set [''ferm'', ''cond'']
            \<longrightarrow> tank_fits (phase_current_tank c) (phase_current c) (volume c))"
proof -
  have tc: "tanks_consistent s"
    unfolding reach by (rule tanks_consistent_run [OF tanks_consistent_initial])
  have iff: "fst (change_batchs_phase now (Some i) p t s) = Page
            \<longleftrightarrow> \<not> held_by_other_active s i t \<and> tank_fits t p (volume b)"
  proof (cases "tank_fits t p (volume b)")
    case False
    then show ?thesis by (simp add: change_response_tank [OF b active p])
  next
    case True
    from tank_fits_catalog [OF True p] catalog_not_blank
    have "t \<noteq> ''not applicable''" by blast
    with True available_iff_not_held [OF tc b True p]
    show ?thesis by (simp add: change_response_tank [OF b active p])
  qed
  have acc: "\<exists>b'. map_of (batches (snd (change_batchs_phase now (Some i) p t s))) i = Some b'
                   \<and> phase_current b' = p \<and> phase_current_tank b' = t \<and> volume b' = volume b"
    if "fst (change_batchs_phase now (Some i) p t s) = Page"
    unfolding change_accepted_batch [OF b active p that] by (rule change_batch_lookup)
  have inv: "tank_fits (phase_current_tank c) (phase_current c) (volume c)"
    if "map_of (batches s) j = Some c" "phase_current c \<in> set [''ferm'', ''cond'']" for j c
  proof -
    from tc that(1) have "batch_tank_ok c"
      unfolding tanks_consistent_map consistent_map_def by blast
    with that(2) show ?thesis by (simp add: batch_tank_ok_def)
  qed
  from iff acc inv change_rejected_same show ?thesis by blast
qed

lemma tank_requests_batches:
  "batches (run tank_requests initial_state) =
     [(''b1'', (Batch_init ''b1'' ''pilsner'' 900)
                 \<lparr>phase_current := ''ferm'', phase_current_tank := ''albert'',
                  phase_last_completed := ''hot brewing'',
                  time_start_phase2 := Some t0,
                  time_end_phase2 := Some (dt_add t0 (hours duration_phase2))\<rparr>),
      (''b2'', Batch_init ''b2'' ''dunkers'' 700)]"
  by (simp add: tank_requests_def initial_state_def add_delete_batch_def float_overflow_def
      remove_blanks_def
      change_batchs_phase_def change_batch_def set_phase_start_end_datetimes_def
      available_tanks_def used_tanks_def get_tank_names_def get_tank_value_def Tanks_init_def
      Batch_init_def Let_def)

theorem tank_request_accepted_iff_witness:
  "map_of (batches (run tank_requests initial_state)) ''b2''
      = Some (Batch_init ''b2'' ''dunkers'' 700)
   \<and> held_by_other_active (run tank_requests initial_state) ''b2'' ''albert''
   \<and> fst (change_batchs_phase t0 (Some ''b2'') ''ferm'' ''albert''
            (run tank_requests initial_state)) \<noteq> Page
   \<and> \<not> held_by_other_active (run tank_requests initial_state) ''b2'' ''brigadier''
   \<and> tank_fits ''brigadier'' ''ferm'' 700
   \<and> fst (change_batchs_phase t0 (Some ''b2'') ''ferm'' ''brigadier''
            (run tank_requests initial_state)) = Page
   \<and> \<not> tank_fits ''gertrude'' ''ferm'' 700
   \<and> fst (change_batchs_phase t0 (Some ''b2'') ''ferm'' ''gertrude''
            (run tank_requests initial_state)) \<noteq> Page"
proof -
  let ?s = "run tank_requests initial_state"
  have b: "map_of (batches ?s) ''b2'' = Some (Batch_init ''b2'' ''dunkers'' 700)"
    by (simp add: tank_requests_batches)
  have active: "phase_current (Batch_init ''b2'' ''dunkers'' 700) \<noteq> ''finished''"
    by (simp add: Batch_init_def)
  have p: "''ferm'' \<in> set [''ferm'', ''cond'']" by simp
  have vol: "volume (Batch_init ''b2'' ''dunkers'' 700) = 700"
    by (simp add: Batch_init_def)
  have held: "held_by_other_active ?s ''b2'' ''albert''"
    "\<not> held_by_other_active ?s ''b2'' ''brigadier''"
    by (simp_all add: held_by_other_active_def tank_requests_batches Batch_init_def)
  have fits: "tank_fits ''brigadier'' ''ferm'' 700" "\<not> tank_fits ''gertrude'' ''ferm'' 700"
    by (simp_all add: tank_fits_def get_tank_value_def Tanks_init_def)
  note w = tank_request_accepted_iff [OF refl b active p, of t0]
  from w [of "''albert''"] w [of "''brigadier''"] w [of "''gertrude''"] b held fits
  show ?thesis
    unfolding vol by blast
qed

section \<open>The inventory ledger and the order of the phases\<close>

lemma bottles_credited_Cons:
  "bottles_credited t ((k, b) # bs) = credit_of t b + bottles_credited t bs"
  by (simp add: bottles_credited_def credit_of_def)

lemma bottles_credited_Nil: "bottles_credited t [] = 0"
  by (simp add: bottles_credited_def)

lemma bottles_credited_update:
  "distinct (map fst bs) \<Longrightarrow> map_of bs i = Some b \<Longrightarrow>
     bottles_credited t (AList.update i b' bs)
       = bottles_credited t bs - credit_of t b + credit_of t b'"
proof (induction bs)
  case Nil
  then show ?case by simp
next
  case (Cons kb bs)
  obtain k c where kb: "kb = (k, c)" by (cases kb)
  show ?case
  proof (cases "k = i")
    case True
    with Cons.prems kb show ?thesis
      by (simp add: bottles_credited_Cons)
  next
    case False
    with Cons kb show ?thesis
      by (simp add: bottles_credited_Cons)
  qed
qed

lemma set_phase_ledger:
  assumes "set_phase_start_end_datetimes now b ivt = (b', ivt')"
  shows "dunkers ivt' - credit_of ''dunkers'' b' = dunkers ivt - credit_of ''dunkers'' b"
    and "pilsner ivt' - credit_of ''pilsner'' b' = pilsner ivt - credit_of ''pilsner'' b"
    and "red_helles ivt' - credit_of ''red_helles'' b'
           = red_helles ivt - credit_of ''red_helles'' b"
    and "bottles_put_in_inventory b \<longrightarrow> bottles_put_in_inventory b'"
  using assms
  by (auto simp: set_phase_start_end_datetimes_def put_bottles_in_inventory_def Let_def
      credit_of_def split: if_splits)

lemma credit_of_phase_tank [simp]:
  "credit_of t (b\<lparr>phase_current := p, phase_current_tank := k\<rparr>) = credit_of t b"
  by (simp add: credit_of_def)

lemma change_batch_ledger:
  assumes d: "distinct (map fst (batches s))" and b: "map_of (batches s) i = Some b"
  shows "dunkers (inventory (change_batch now i b p t s))
           - bottles_credited ''dunkers'' (batches (change_batch now i b p t s))
         = dunkers (inventory s) - bottles_credited ''dunkers'' (batches s)"
    and "pilsner (inventory (change_batch now i b p t s))
           - bottles_credited ''pilsner'' (batches (change_batch now i b p t s))
         = pilsner (inventory s) - bottles_credited ''pilsner'' (batches s)"
    and "red_helles (inventory (change_batch now i b p t s))
           - bottles_credited ''red_helles'' (batches (change_batch now i b p t s))
         = red_helles (inventory s) - bottles_credited ''red_helles'' (batches s)"
    and "distinct (map fst (batches (change_batch now i b p t s)))"
proof -
  obtain b' ivt' where r: "set_phase_start_end_datetimes now
             (b\<lparr>phase_current := p, phase_current_tank := t\<rparr>) (inventory s) = (b', ivt')"
    by force
  note l = set_phase_ledger [OF r, simplified]
  show "dunkers (inventory (change_batch now i b p t s))
           - bottles_credited ''dunkers'' (batches (change_batch now i b p t s))
         = dunkers (inventory s) - bottles_credited ''dunkers'' (batches s)"
    using l(1) by (simp add: change_batch_batches [OF r] bottles_credited_update [OF d b])
  show "pilsner (inventory (change_batch now i b p t s))
           - bottles_credited ''pilsner'' (batches (change_batch now i b p t s))
         = pilsner (inventory s) - bottles_credited ''pilsner'' (batches s)"
    using l(2) by (simp add: change_batch_batches [OF r] bottles_credited_update [OF d b])
  show "red_helles (inventory (change_batch now i b p t s))
           - bottles_credited ''red_helles'' (batches (change_batch now i b p t s))
         = red_helles (inventory s) - bottles_credited ''red_helles'' (batches s)"
    using l(3) by (simp add: change_batch_batches [OF r] bottles_credited_update [OF d b])
  show "distinct (map fst (batches (change_batch now i b p t s)))"
    using d by (simp add: change_batch_batches [OF r] distinct_update)
qed

text \<open>A phase change leaves the state as it is or makes the assignments for one batch.\<close>

lemma change_batchs_phase_cases:
  "snd (change_batchs_phase now id_input p t s) = s
   \<or> (\<exists>i b. id_input = Some i \<and> map_of (batches s) i = Some b
            \<and> phase_current b \<noteq> ''finished''
            \<and> snd (change_batchs_phase now id_input p t s) = change_batch now i b p t s)"
  by (simp add: change_batchs_phase_def split: option.splits attr.splits)

lemma change_batch_lookup_other:
  "j \<noteq> i \<Longrightarrow> map_of (batches (change_batch now i b p t s)) j = map_of (batches s) j"
proof -
  assume ji: "j \<noteq> i"
  obtain b' ivt' where r: "set_phase_start_end_datetimes now
             (b\<lparr>phase_current := p, phase_current_tank := t\<rparr>) (inventory s) = (b', ivt')"
    by force
  from ji show ?thesis
    by (simp add: change_batch_batches [OF r] update_conv')
qed

lemma change_batch_lookup_same:
  "\<exists>b'. map_of (batches (change_batch now i b p t s)) i = Some b'
        \<and> volume b' = volume b \<and> beer_type b' = beer_type b
        \<and> (bottles_put_in_inventory b \<longrightarrow> bottles_put_in_inventory b')"
proof -
  obtain b' ivt' where r: "set_phase_start_end_datetimes now
             (b\<lparr>phase_current := p, phase_current_tank := t\<rparr>) (inventory s) = (b', ivt')"
    by force
  from set_phase_keeps [OF r] set_phase_ledger(4) [OF r] show ?thesis
    by (simp add: change_batch_batches [OF r] update_conv')
qed

lemma change_keeps_batch:
  assumes b: "map_of (batches s) i = Some b"
  shows "\<exists>b'. map_of (batches (snd (change_batchs_phase now id_input p t s))) i = Some b'
        \<and> volume b' = volume b \<and> beer_type b' = beer_type b
        \<and> (bottles_put_in_inventory b \<longrightarrow> bottles_put_in_inventory b')
        \<and> (phase_current b = ''finished'' \<longrightarrow> b' = b)"
proof -
  from change_batchs_phase_cases [of now id_input p t s]
  consider (same) "snd (change_batchs_phase now id_input p t s) = s"
    | (changed) k c where "map_of (batches s) k = Some c" "phase_current c \<noteq> ''finished''"
        "snd (change_batchs_phase now id_input p t s) = change_batch now k c p t s"
    by blast
  then show ?thesis
  proof cases
    case same
    with b show ?thesis by simp
  next
    case changed
    show ?thesis
    proof (cases "k = i")
      case True
      with changed(1) b have cb: "c = b" by simp
      with changed(2) have "phase_current b \<noteq> ''finished''" by simp
      with change_batch_lookup_same [of now i b p t s] show ?thesis
        unfolding changed(3) True cb by blast
    next
      case False
      then have "map_of (batches (change_batch now k c p t s)) i = Some b"
        using b by (simp add: change_batch_lookup_other)
      then show ?thesis unfolding changed(3) by simp
    qed
  qed
qed

lemma run_keeps_batch:
  assumes "\<forall>q \<in> set qs. is_phase_change (snd q)" and "map_of (batches s) i = Some b"
  shows "\<exists>b'. map_of (batches (run qs s)) i = Some b'
        \<and> volume b' = volume b \<and> beer_type b' = beer_type b
        \<and> (bottles_put_in_inventory b \<longrightarrow> bottles_put_in_inventory b')
        \<and> (phase_current b = ''finished'' \<longrightarrow> b' = b)"
  using assms
proof (induction qs arbitrary: s b)
  case Nil
  then show ?case by simp
next
  case (Cons nq qs)
  obtain now q where nq: "nq = (now, q)" by (cases nq)
  with Cons.prems(1) obtain id_input p t where q: "q = Change_batchs_phase id_input p t"
    by (cases q) auto
  let ?s = "snd (change_batchs_phase now id_input p t s)"
  from change_keeps_batch [OF Cons.prems(2), of now id_input p t]
  obtain c where c: "map_of (batches ?s) i = Some c" "volume c = volume b"
    "beer_type c = beer_type b" "bottles_put_in_inventory b \<longrightarrow> bottles_put_in_inventory c"
    "phase_current b = ''finished'' \<longrightarrow> c = b"
    by blast
  from Cons.prems(1) have rest: "\<forall>q \<in> set qs. is_phase_change (snd q)" by simp
  from Cons.IH [OF rest c(1)] c(2-5) show ?case
    unfolding nq q by auto
qed

lemma change_ledger:
  assumes d: "distinct (map fst (batches s))"
  shows "dunkers (inventory (snd (change_batchs_phase now id_input p t s)))
           - bottles_credited ''dunkers'' (batches (snd (change_batchs_phase now id_input p t s)))
         = dunkers (inventory s) - bottles_credited ''dunkers'' (batches s)
       \<and> pilsner (inventory (snd (change_batchs_phase now id_input p t s)))
           - bottles_credited ''pilsner'' (batches (snd (change_batchs_phase now id_input p t s)))
         = pilsner (inventory s) - bottles_credited ''pilsner'' (batches s)
       \<and> red_helles (inventory (snd (change_batchs_phase now id_input p t s)))
           - bottles_credited ''red_helles''
               (batches (snd (change_batchs_phase now id_input p t s)))
         = red_helles (inventory s) - bottles_credited ''red_helles'' (batches s)
       \<and> distinct (map fst (batches (snd (change_batchs_phase now id_input p t s))))"
proof -
  from change_batchs_phase_cases [of now id_input p t s]
  consider (same) "snd (change_batchs_phase now id_input p t s) = s"
    | (changed) k c where "map_of (batches s) k = Some c"
        "snd (change_batchs_phase now id_input p t s) = change_batch now k c p t s"
    by blast
  then show ?thesis
  proof cases
    case same
    with d show ?thesis by simp
  next
    case changed
    from change_batch_ledger [OF d changed(1), of now p t] show ?thesis
      unfolding changed(2) by simp
  qed
qed

lemma run_ledger:
  assumes "\<forall>q \<in> set qs. is_phase_change (snd q)" and "distinct (map fst (batches s))"
  shows "dunkers (inventory (run qs s)) - bottles_credited ''dunkers'' (batches (run qs s))
         = dunkers (inventory s) - bottles_credited ''dunkers'' (batches s)
       \<and> pilsner (inventory (run qs s)) - bottles_credited ''pilsner'' (batches (run qs s))
         = pilsner (inventory s) - bottles_credited ''pilsner'' (batches s)
       \<and> red_helles (inventory (run qs s))
           - bottles_credited ''red_helles'' (batches (run qs s))
         = red_helles (inventory s) - bottles_credited ''red_helles'' (batches s)"
  using assms
proof (induction qs arbitrary: s)
  case Nil
  then show ?case by simp
next
  case (Cons nq qs)
  obtain now q where nq: "nq = (now, q)" by (cases nq)
  with Cons.prems(1) obtain id_input p t where q: "q = Change_batchs_phase id_input p t"
    by (cases q) auto
  let ?s = "snd (change_batchs_phase now id_input p t s)"
  note step = change_ledger [OF Cons.prems(2), of now id_input p t]
  from Cons.prems(1) have rest: "\<forall>q \<in> set qs. is_phase_change (snd q)" by simp
  from step have d': "distinct (map fst (batches ?s))" by simp
  from Cons.IH [OF rest d'] step show ?case
    unfolding nq q by simp
qed

lemma first_finish_credits:
  assumes b: "map_of (batches s) i = Some b" and nf: "phase_current b \<noteq> ''finished''"
    and flag: "\<not> bottles_put_in_inventory b"
  shows "fst (change_batchs_phase now (Some i) ''finished'' ''not applicable'' s) = Page"
    and "map_of (batches (snd (change_batchs_phase now (Some i) ''finished''
                  ''not applicable'' s))) i
         = Some (b\<lparr>phase_current := ''finished'', phase_current_tank := ''not applicable'',
                   phase_last_completed := ''bottling'', bottles_put_in_inventory := True,
                   num_bottles_to_inv := Some (volume b * 2)\<rparr>)"
    and "inventory (snd (change_batchs_phase now (Some i) ''finished'' ''not applicable'' s))
         = (if beer_type b = ''dunkers''
            then (inventory s)\<lparr>dunkers := dunkers (inventory s) + volume b * 2\<rparr>
            else if beer_type b = ''pilsner''
            then (inventory s)\<lparr>pilsner := pilsner (inventory s) + volume b * 2\<rparr>
            else if beer_type b = ''red_helles''
            then (inventory s)\<lparr>red_helles := red_helles (inventory s) + volume b * 2\<rparr>
            else inventory s)"
  using assms
  by (simp_all add: change_batchs_phase_def change_batch_def set_phase_start_end_datetimes_def
      put_bottles_in_inventory_def Let_def update_conv')

text \<open>
  Claim C1. Over any sequence of phase-change requests, from any state, the count of each
  beer type in the inventory minus the bottles credited by the batches whose flag is set
  does not change: each batch adds \<open>2 * volume\<close> bottles to the count of its beer
  type when its flag is set and never again, and a set flag stays set. The first change
  of a batch to \<^verbatim>\<open>finished\<close> is accepted, sets the flag and adds exactly
  \<open>2 * volume\<close> bottles to the count of the batch's beer type and to no other count;
  every later request for that batch leaves the whole state, and so every count,
  unchanged, and \<^verbatim>\<open>put_bottles_in_inventory\<close> itself does nothing once the flag is
  set.
\<close>

theorem bottles_credited_once:
  assumes d: "distinct (map fst (batches s))"
    and qs: "\<forall>q \<in> set qs. is_phase_change (snd q)"
  shows "dunkers (inventory (run qs s)) - bottles_credited ''dunkers'' (batches (run qs s))
           = dunkers (inventory s) - bottles_credited ''dunkers'' (batches s)
       \<and> pilsner (inventory (run qs s)) - bottles_credited ''pilsner'' (batches (run qs s))
           = pilsner (inventory s) - bottles_credited ''pilsner'' (batches s)
       \<and> red_helles (inventory (run qs s))
             - bottles_credited ''red_helles'' (batches (run qs s))
           = red_helles (inventory s) - bottles_credited ''red_helles'' (batches s)
       \<and> (\<forall>i b. map_of (batches s) i = Some b \<longrightarrow>
            (\<exists>b'. map_of (batches (run qs s)) i = Some b'
                  \<and> volume b' = volume b \<and> beer_type b' = beer_type b
                  \<and> (bottles_put_in_inventory b \<longrightarrow> bottles_put_in_inventory b')))
       \<and> (\<forall>i b now. map_of (batches s) i = Some b \<longrightarrow> phase_current b \<noteq> ''finished'' \<longrightarrow>
            \<not> bottles_put_in_inventory b \<longrightarrow>
            fst (change_batchs_phase now (Some i) ''finished'' ''not applicable'' s) = Page
            \<and> map_of (batches (snd (change_batchs_phase now (Some i) ''finished''
                          ''not applicable'' s))) i
                = Some (b\<lparr>phase_current := ''finished'',
                          phase_current_tank := ''not applicable'',
                          phase_last_completed := ''bottling'',
                          bottles_put_in_inventory := True,
                          num_bottles_to_inv := Some (volume b * 2)\<rparr>)
            \<and> (beer_type b = ''dunkers'' \<longrightarrow>
                 inventory (snd (change_batchs_phase now (Some i) ''finished''
                              ''not applicable'' s))
                 = (inventory s)\<lparr>dunkers := dunkers (inventory s) + volume b * 2\<rparr>)
            \<and> (beer_type b = ''pilsner'' \<longrightarrow>
                 inventory (snd (change_batchs_phase now (Some i) ''finished''
                              ''not applicable'' s))
                 = (inventory s)\<lparr>pilsner := pilsner (inventory s) + volume b * 2\<rparr>)
            \<and> (beer_type b = ''red_helles'' \<longrightarrow>
                 inventory (snd (change_batchs_phase now (Some i) ''finished''
                              ''not applicable'' s))
                 = (inventory s)\<lparr>red_helles := red_helles (inventory s) + volume b * 2\<rparr>))
       \<and> (\<forall>i b now p t. map_of (batches s) i = Some b \<longrightarrow> phase_current b = ''finished'' \<longrightarrow>
            snd (change_batchs_phase now (Some i) p t s) = s)
       \<and> (\<forall>b ivt. bottles_put_in_inventory b \<longrightarrow> put_bottles_in_inventory b ivt = (b, ivt))"
proof -
  note ledger = run_ledger [OF qs d]
  have keeps: "\<exists>b'. map_of (batches (run qs s)) i = Some b'
                  \<and> volume b' = volume b \<and> beer_type b' = beer_type b
                  \<and> (bottles_put_in_inventory b \<longrightarrow> bottles_put_in_inventory b')"
    if "map_of (batches s) i = Some b" for i b
    using run_keeps_batch [OF qs that] by blast
  have first: "fst (change_batchs_phase now (Some i) ''finished'' ''not applicable'' s) = Page
            \<and> map_of (batches (snd (change_batchs_phase now (Some i) ''finished''
                          ''not applicable'' s))) i
                = Some (b\<lparr>phase_current := ''finished'',
                          phase_current_tank := ''not applicable'',
                          phase_last_completed := ''bottling'',
                          bottles_put_in_inventory := True,
                          num_bottles_to_inv := Some (volume b * 2)\<rparr>)
            \<and> (beer_type b = ''dunkers'' \<longrightarrow>
                 inventory (snd (change_batchs_phase now (Some i) ''finished''
                              ''not applicable'' s))
                 = (inventory s)\<lparr>dunkers := dunkers (inventory s) + volume b * 2\<rparr>)
            \<and> (beer_type b = ''pilsner'' \<longrightarrow>
                 inventory (snd (change_batchs_phase now (Some i) ''finished''
                              ''not applicable'' s))
                 = (inventory s)\<lparr>pilsner := pilsner (inventory s) + volume b * 2\<rparr>)
            \<and> (beer_type b = ''red_helles'' \<longrightarrow>
                 inventory (snd (change_batchs_phase now (Some i) ''finished''
                              ''not applicable'' s))
                 = (inventory s)\<lparr>red_helles := red_helles (inventory s) + volume b * 2\<rparr>)"
    if "map_of (batches s) i = Some b" "phase_current b \<noteq> ''finished''"
       "\<not> bottles_put_in_inventory b" for i b now
    using first_finish_credits [OF that, of now] by simp
  have again: "snd (change_batchs_phase now (Some i) p t s) = s"
    if "map_of (batches s) i = Some b" "phase_current b = ''finished''" for i b now p t
    using that by (simp add: change_batchs_phase_def)
  have noop: "put_bottles_in_inventory b ivt = (b, ivt)" if "bottles_put_in_inventory b"
    for b ivt
    using that by (simp add: put_bottles_in_inventory_def)
  from ledger keeps first again noop show ?thesis
    by (intro conjI allI impI) blast+
qed

lemma fresh_state_eq:
  "fresh_state = initial_state\<lparr>batches := [(''b1'', Batch_init ''b1'' ''pilsner'' 500)]\<rparr>"
  by (simp add: fresh_state_def initial_state_def add_delete_batch_def float_overflow_def
      remove_blanks_def Let_def)

lemma finish_once_fresh:
  "snd (change_batchs_phase t0 (Some ''b1'') ''finished'' ''not applicable'' fresh_state)
     = finished_state"
  by (simp add: fresh_state_eq finished_state_def finished_batch_def initial_state_def
      change_batchs_phase_def change_batch_def set_phase_start_end_datetimes_def
      put_bottles_in_inventory_def Batch_init_def Inventory_init_def Let_def)

lemma run_finish_twice: "run finish_twice fresh_state = finished_state"
proof -
  have "snd (change_batchs_phase t0 (Some ''b1'') ''finished'' ''not applicable''
          finished_state) = finished_state"
    by (simp add: change_batchs_phase_def finished_state_def finished_batch_def)
  then show ?thesis
    by (simp add: finish_twice_def finish_once_fresh)
qed

theorem bottles_credited_once_witness:
  "distinct (map fst (batches fresh_state))
   \<and> map (is_phase_change \<circ> snd) finish_twice = [True, True]
   \<and> pilsner (inventory fresh_state) = 0
   \<and> bottles_credited ''pilsner'' (batches fresh_state) = 0
   \<and> bottles_credited ''pilsner'' (batches (run finish_twice fresh_state)) = 500 * 2
   \<and> pilsner (inventory (run finish_twice fresh_state)) = 500 * 2
   \<and> pilsner (inventory (run (take 1 finish_twice) fresh_state)) = 500 * 2"
proof -
  have d: "distinct (map fst (batches fresh_state))"
    by (simp add: fresh_state_eq)
  have qs: "\<forall>q \<in> set finish_twice. is_phase_change (snd q)"
    by (simp add: finish_twice_def)
  have qs1: "\<forall>q \<in> set (take 1 finish_twice). is_phase_change (snd q)"
    by (simp add: finish_twice_def)
  have before: "pilsner (inventory fresh_state) = 0"
    "bottles_credited ''pilsner'' (batches fresh_state) = 0"
    by (simp_all add: fresh_state_eq initial_state_def Inventory_init_def bottles_credited_def
        Batch_init_def)
  have once: "run (take 1 finish_twice) fresh_state = finished_state"
    by (simp add: finish_twice_def finish_once_fresh)
  have after: "bottles_credited ''pilsner'' (batches finished_state) = 500 * 2"
    by (simp add: finished_state_def finished_batch_def bottles_credited_def Batch_init_def)
  have ps: "map (is_phase_change \<circ> snd) finish_twice = [True, True]"
    by (simp add: finish_twice_def)
  from bottles_credited_once [OF d qs] bottles_credited_once [OF d qs1] d ps before after
  show ?thesis
    unfolding run_finish_twice once by simp
qed








section \<open>The plan of the production\<close>

subsection \<open>The keys of the dictionaries\<close>

lemma add_to_month_keys:
  "add_to_month beer index n d = Inr d' \<Longrightarrow> map fst d' = map fst d"
  by (force simp: add_to_month_def update_keys split: option.splits dest!: map_of_SomeD)

lemma assign_month_keys:
  "assign_month beer index n d = Inr d' \<Longrightarrow> map fst d' = map fst d"
  by (force simp: assign_month_def update_keys split: option.splits dest!: map_of_SomeD)

lemma month_loop_keys:
  "month_loop b is m d = Inr d' \<Longrightarrow> map fst d' = map fst d"
proof (induction "is" arbitrary: m d)
  case Nil
  then show ?case by simp
next
  case (Cons i "is")
  then show ?case
    by (auto split: if_splits sum.splits dest!: add_to_month_keys)
qed

lemma batch_loop_keys:
  "batch_loop now bs d = Inr d' \<Longrightarrow> map fst d' = map fst d"
proof (induction bs arbitrary: d)
  case Nil
  then show ?case by simp
next
  case (Cons b bs)
  then show ?case
    by (auto simp del: month_loop.simps split: if_splits sum.splits dest!: month_loop_keys)
qed

lemma add_inventory_keys:
  "add_inventory ivt ks d = Inr d' \<Longrightarrow> map fst d' = map fst d"
proof (induction ks arbitrary: d)
  case Nil
  then show ?case by simp
next
  case (Cons k ks)
  then show ?case
    by (auto split: attr.splits sum.splits dest!: add_to_month_keys)
qed

lemma store_forecasts_keys:
  "store_forecasts beer vs d = Inr d' \<Longrightarrow> map fst d' = map fst d"
proof (induction vs arbitrary: d)
  case Nil
  then show ?case by simp
next
  case (Cons iv vs)
  obtain i v where "iv = (i, v)" by (cases iv)
  with Cons show ?case
    by (auto split: forecast_value.splits sum.splits dest!: assign_month_keys)
qed

lemma forecast_loop_keys:
  "forecast_loop dates fs d = Inr d' \<Longrightarrow> map fst d' = map fst d"
proof (induction fs arbitrary: d)
  case Nil
  then show ?case by simp
next
  case (Cons bf fs)
  obtain beer f where "bf = (beer, f)" by (cases bf)
  with Cons show ?case
    by (auto simp: Let_def simp del: store_forecasts.simps
        split: prod.splits if_splits sum.splits dest!: store_forecasts_keys)
qed




subsection \<open>The dates of the forecast\<close>

lemma monthrange_ge: "28 \<le> monthrange y m"
  by (simp add: monthrange_def)

lemma funpow_next_day_within:
  "day t + k \<le> monthrange (year t) (month t) \<Longrightarrow> (next_day ^^ k) t = t\<lparr>day := day t + k\<rparr>"
proof (induction k arbitrary: t)
  case 0
  then show ?case by simp
next
  case (Suc k)
  from Suc.prems have step: "next_day t = t\<lparr>day := day t + 1\<rparr>"
    by (simp add: next_day_def)
  have "(next_day ^^ Suc k) t = (next_day ^^ k) (next_day t)"
    by (simp add: funpow_swap1)
  also have "\<dots> = (t\<lparr>day := day t + 1\<rparr>)\<lparr>day := day (t\<lparr>day := day t + 1\<rparr>) + k\<rparr>"
    unfolding step using Suc.prems by (intro Suc.IH) simp
  finally show ?case by simp
qed

lemma next_day_last:
  "day t = monthrange (year t) (month t) \<Longrightarrow>
     next_day t = t\<lparr>year := fst (following_month (year t, month t)),
                    month := snd (following_month (year t, month t)), day := 1\<rparr>"
  by (simp add: next_day_def following_month_def)

lemma funpow_next_day_month:
  assumes d: "1 \<le> day t" "day t \<le> 28"
  shows "(next_day ^^ monthrange (year t) (month t)) t
         = t\<lparr>year := fst (following_month (year t, month t)),
              month := snd (following_month (year t, month t))\<rparr>"
proof -
  let ?L = "monthrange (year t) (month t)"
  let ?y = "fst (following_month (year t, month t))"
  let ?m = "snd (following_month (year t, month t))"
  have L: "28 \<le> ?L" by (rule monthrange_ge)
  with d have split: "?L = (day t - 1) + Suc (?L - day t)" by simp
  have a: "(next_day ^^ (?L - day t)) t = t\<lparr>day := ?L\<rparr>"
    using d L by (simp add: funpow_next_day_within)
  have b: "next_day (t\<lparr>day := ?L\<rparr>) = t\<lparr>year := ?y, month := ?m, day := 1\<rparr>"
    by (simp add: next_day_last)
  have c: "(next_day ^^ (day t - 1)) (t\<lparr>year := ?y, month := ?m, day := 1\<rparr>)
           = t\<lparr>year := ?y, month := ?m\<rparr>"
    using d monthrange_ge [of ?y ?m] by (simp add: funpow_next_day_within)
  have "(next_day ^^ ?L) t
        = (next_day ^^ (day t - 1)) (next_day ((next_day ^^ (?L - day t)) t))"
    by (subst split) (simp only: funpow_add o_apply funpow.simps)
  also have "\<dots> = (next_day ^^ (day t - 1)) (t\<lparr>year := ?y, month := ?m, day := 1\<rparr>)"
    by (simp only: a b)
  also note c
  finally show ?thesis .
qed

lemma dt_add_days:
  assumes "int (usec t) < usec_per_day"
  shows "dt_add t (days (int n)) = (next_day ^^ n) t"
proof -
  have D: "0 < usec_per_day" by (simp add: usec_per_day_def)
  have m: "int (usec t) mod usec_per_day = int (usec t)"
    using assms by simp
  have q: "(int (usec t) + int n * usec_per_day) div usec_per_day = int n"
    using assms D by simp
  show ?thesis
    by (simp add: dt_add_def days_def Let_def m q add_days_def)
qed

lemma forecast_dates_regular:
  assumes v: "valid_datetime now" and d: "day now \<le> 28"
  shows "forecast_dates now =
           (first_of_month (year now) (month now),
            first_of_month (fst (following_month (year now, month now)))
                           (snd (following_month (year now, month now))),
            first_of_month (fst (following_month (following_month (year now, month now))))
                           (snd (following_month (following_month (year now, month now)))))"
proof -
  let ?ym = "following_month (year now, month now)"
  let ?next = "now\<lparr>year := fst ?ym, month := snd ?ym\<rparr>"
  from v have u: "int (usec now) < usec_per_day" and d1: "1 \<le> day now"
    by (simp_all add: valid_datetime_def)
  have n: "dt_add now (days (int (monthrange (year now) (month now)))) = ?next"
    by (simp add: dt_add_days [OF u] funpow_next_day_month [OF d1 d])
  have u': "int (usec ?next) < usec_per_day" using u by simp
  have t: "dt_add ?next (days (int (monthrange (fst ?ym) (snd ?ym))))
           = ?next\<lparr>year := fst (following_month ?ym), month := snd (following_month ?ym)\<rparr>"
    using funpow_next_day_month [of ?next] d d1
    by (simp add: dt_add_days [OF u'])
  show ?thesis
    by (simp add: forecast_dates_def Let_def n t)
qed

subsection \<open>The beer to produce\<close>







subsection \<open>When the planner gives its report\<close>

lemma get_tank_value_catalog:
  "tank \<in> set get_tank_names \<Longrightarrow> \<exists>v. get_tank_value tank = Dict v"
  by (force simp: get_tank_value_def get_tank_names_def map_of_eq_None_iff
      split: option.splits)

lemma capable_loop_catalog:
  assumes "set ts \<subseteq> set get_tank_names"
  shows "capable_loop ts = Inr (map (\<lambda>t. (t, volume_of t)) (filter ferments ts))"
  using assms
proof (induction ts)
  case Nil
  then show ?case by simp
next
  case (Cons t ts)
  from Cons.prems have "t \<in> set get_tank_names" by simp
  then obtain v where v: "get_tank_value t = Dict v"
    using get_tank_value_catalog by blast
  with Cons show ?case
    by (simp add: ferments_def volume_of_def)
qed

lemma add_to_month_returns:
  "beer \<in> set (map fst d) \<Longrightarrow> \<exists>d'. add_to_month beer index n d = Inr d'"
  by (auto simp: add_to_month_def map_of_eq_None_iff split: option.splits)

lemma assign_month_returns:
  "beer \<in> set (map fst d) \<Longrightarrow> \<exists>d'. assign_month beer index n d = Inr d'"
  by (auto simp: assign_month_def map_of_eq_None_iff split: option.splits)

lemma month_loop_returns:
  "beer_type b \<in> set (map fst d) \<Longrightarrow> \<exists>d'. month_loop b is m d = Inr d'"
proof (induction "is" arbitrary: m d)
  case Nil
  then show ?case by simp
next
  case (Cons i "is")
  show ?case
  proof (cases "end_month_matches (end_phases b) m")
    case True
    from add_to_month_returns [OF Cons.prems] obtain d1 where
      d1: "add_to_month (beer_type b) i (volume b * 2) d = Inr d1"
      by blast
    from add_to_month_keys [OF d1] Cons.prems have "beer_type b \<in> set (map fst d1)"
      by simp
    from Cons.IH [OF this] True d1 show ?thesis by simp
  next
    case False
    with Cons.IH [OF Cons.prems] show ?thesis by simp
  qed
qed

lemma batch_loop_returns:
  "\<forall>b \<in> set bs. beer_type b \<in> set (map fst d) \<Longrightarrow> \<exists>d'. batch_loop now bs d = Inr d'"
proof (induction bs arbitrary: d)
  case Nil
  then show ?case by simp
next
  case (Cons b bs)
  show ?case
  proof (cases "bottles_put_in_inventory b")
    case True
    with Cons show ?thesis by simp
  next
    case False
    from Cons.prems have "beer_type b \<in> set (map fst d)" by simp
    from month_loop_returns [OF this] obtain d1 where
      d1: "month_loop b [0, 1, 2] (month now) d = Inr d1"
      by blast
    from month_loop_keys [OF d1] Cons.prems
    have "\<forall>b \<in> set bs. beer_type b \<in> set (map fst d1)" by simp
    from Cons.IH [OF this] False d1 show ?thesis
      by (simp del: month_loop.simps)
  qed
qed

lemma get_inv_items_quantity_beer:
  "beer \<in> set beer_types \<Longrightarrow> \<exists>n. get_inv_items_quantity ivt beer = Dict n"
  by (auto simp: beer_types_def get_inv_items_quantity_def)

lemma add_inventory_returns:
  "set ks \<subseteq> set beer_types \<Longrightarrow> set ks \<subseteq> set (map fst d) \<Longrightarrow>
     \<exists>d'. add_inventory ivt ks d = Inr d'"
proof (induction ks arbitrary: d)
  case Nil
  then show ?case by simp
next
  case (Cons k ks)
  from Cons.prems obtain n where n: "get_inv_items_quantity ivt k = Dict n"
    using get_inv_items_quantity_beer [of k ivt] by auto
  from Cons.prems have "k \<in> set (map fst d)" by simp
  from add_to_month_returns [OF this] obtain d1 where d1: "add_to_month k 0 n d = Inr d1"
    by blast
  from add_to_month_keys [OF d1] Cons.prems have "set ks \<subseteq> set (map fst d1)" by simp
  from Cons.IH [OF _ this] Cons.prems n d1 show ?case by simp
qed

lemma store_forecasts_returns:
  "beer \<in> set (map fst d) \<Longrightarrow> list_all (\<lambda>iv. snd iv \<noteq> No_key \<and> snd iv \<noteq> Infinite) vs \<Longrightarrow>
     \<exists>d'. store_forecasts beer vs d = Inr d'"
proof (induction vs arbitrary: d)
  case Nil
  then show ?case by simp
next
  case (Cons iv vs)
  obtain i v where iv: "iv = (i, v)" by (cases iv)
  show ?case
  proof (cases v)
    case (Mean n)
    from assign_month_returns [OF Cons.prems(1)] obtain d1 where
      d1: "assign_month beer i n d = Inr d1"
      by blast
    from assign_month_keys [OF d1] Cons.prems(1) have "beer \<in> set (map fst d1)" by simp
    from Cons.IH [OF this] Cons.prems(2) iv Mean d1 show ?thesis by simp
  qed (use Cons.prems(2) iv in simp_all)
qed

lemma forecast_loop_returns:
  "list_all (\<lambda>bf. fst bf \<in> set (map fst d) \<and> forecast_usable now (snd bf)) fs \<Longrightarrow>
     \<exists>d'. forecast_loop (forecast_dates now) fs d = Inr d'"
proof (induction fs arbitrary: d)
  case Nil
  then show ?case by simp
next
  case (Cons bf fs)
  obtain beer f where bf: "bf = (beer, f)" by (cases bf)
  obtain d1 d2 d3 where dates: "forecast_dates now = (d1, d2, d3)"
    by (cases "forecast_dates now") auto
  from Cons.prems bf dates have beer: "beer \<in> set (map fst d)"
    and ok: "f d1 \<noteq> No_key" "f d2 \<noteq> No_key" "f d3 \<noteq> No_key"
      "list_all (\<lambda>iv. snd iv \<noteq> No_key \<and> snd iv \<noteq> Infinite) [(0::nat, f d1), (1, f d2), (2, f d3)]"
    by (simp_all add: forecast_usable_def)
  from store_forecasts_returns [OF beer ok(4)] obtain e where
    e: "store_forecasts beer [(0, f d1), (1, f d2), (2, f d3)] d = Inr e"
    by blast
  from store_forecasts_keys [OF e] Cons.prems
  have "list_all (\<lambda>bf. fst bf \<in> set (map fst e) \<and> forecast_usable now (snd bf)) fs"
    by simp
  from Cons.IH [OF this] obtain d' where "forecast_loop (forecast_dates now) fs e = Inr d'"
    by blast
  with bf dates ok(1-3) e show ?case
    by (simp add: Let_def del: store_forecasts.simps)
qed

lemma differences_returns:
  "set (map fst e) \<subseteq> set (map fst f) \<Longrightarrow>
     \<exists>ds. differences e f = Inr ds \<and> map fst ds = map fst e"
proof (induction e)
  case Nil
  then show ?case by simp
next
  case (Cons x e)
  obtain beer m where x: "x = (beer, m)" by (cases x)
  from Cons.prems x have "beer \<in> fst ` set f" by simp
  then obtain g where g: "map_of f beer = Some g"
    by (metis map_of_eq_None_iff not_Some_eq)
  from Cons obtain ds where "differences e f = Inr ds" "map fst ds = map fst e"
    by auto
  with x g show ?case by simp
qed

text \<open>
  The planner gives its report when a forecast is stored, the beer type of each batch and
  of each forecast is one of the three, and each forecast can be read at the three dates.
\<close>

lemma plan_production_returns:
  assumes fs: "monthly_sales_forecasts s \<noteq> []"
    and bs: "\<forall>b \<in> set (map snd (batches s)). beer_type b \<in> set beer_types"
    and us: "list_all (\<lambda>bf. fst bf \<in> set beer_types \<and> forecast_usable now (snd bf))
               (monthly_sales_forecasts s)"
  shows "\<exists>rep. plan_production now s = Inr rep"
proof -
  have z: "map fst three_months_zero = beer_types"
    by (simp add: three_months_zero_def beer_types_def)
  from bs z obtain e1 where
    e1: "batch_loop now (map snd (batches s)) three_months_zero = Inr e1"
    using batch_loop_returns [of "map snd (batches s)" three_months_zero now] by auto
  from batch_loop_keys [OF e1] z have k1: "map fst e1 = beer_types" by simp
  then obtain e2 where e2: "add_inventory (inventory s) (map fst e1) e1 = Inr e2"
    using add_inventory_returns [of "map fst e1" e1 "inventory s"] by auto
  from add_inventory_keys [OF e2] k1 have k2: "map fst e2 = beer_types" by simp
  from us z obtain fc where
    fc: "forecast_loop (forecast_dates now) (monthly_sales_forecasts s) three_months_zero
           = Inr fc"
    using forecast_loop_returns [of three_months_zero now "monthly_sales_forecasts s"] by auto
  from forecast_loop_keys [OF fc] z have k3: "map fst fc = beer_types" by simp
  from k2 k3 obtain ds where ds: "differences e2 fc = Inr ds" "map fst ds = beer_types"
    using differences_returns [of e2 fc] by auto
  from ds(2) obtain d0 dr where ds': "ds = d0 # dr"
    by (cases ds) (auto simp: beer_types_def)
  let ?free = "filter (\<lambda>tank. tank \<notin> set (used_tanks (batches s))) get_tank_names"
  have c: "capable_loop ?free = Inr (map (\<lambda>t. (t, volume_of t)) (filter ferments ?free))"
    by (rule capable_loop_catalog) simp
  from fs e1 e2 fc ds(1) ds' show ?thesis
    unfolding plan_production_def c by simp
qed

subsection \<open>The tank to use\<close>

lemma get_tank_names_sorted: "sorted_wrt (<) get_tank_names"
  by (simp add: get_tank_names_def Tanks_init_def less_char_def)

lemma max_from_cases:
  "(max_from b xs = b \<and> (\<forall>x \<in> set xs. snd x \<le> snd b))
   \<or> (\<exists>ys zs. xs = ys @ max_from b xs # zs \<and> snd b < snd (max_from b xs)
         \<and> (\<forall>y \<in> set ys. snd y < snd (max_from b xs))
         \<and> (\<forall>z \<in> set zs. snd z \<le> snd (max_from b xs)))"
proof (induction xs arbitrary: b)
  case Nil
  then show ?case by simp
next
  case (Cons x xs)
  show ?case
  proof (cases "snd b < snd x")
    case True
    then have m: "max_from b (x # xs) = max_from x xs" by simp
    from Cons.IH [of x] show ?thesis
    proof
      assume "max_from x xs = x \<and> (\<forall>y \<in> set xs. snd y \<le> snd x)"
      with True m have "x # xs = [] @ max_from b (x # xs) # xs
          \<and> snd b < snd (max_from b (x # xs))
          \<and> (\<forall>y \<in> set []. snd y < snd (max_from b (x # xs)))
          \<and> (\<forall>z \<in> set xs. snd z \<le> snd (max_from b (x # xs)))"
        by simp
      then show ?thesis by blast
    next
      assume "\<exists>ys zs. xs = ys @ max_from x xs # zs \<and> snd x < snd (max_from x xs)
         \<and> (\<forall>y \<in> set ys. snd y < snd (max_from x xs))
         \<and> (\<forall>z \<in> set zs. snd z \<le> snd (max_from x xs))"
      then obtain ys zs where r: "xs = ys @ max_from x xs # zs" "snd x < snd (max_from x xs)"
        "\<forall>y \<in> set ys. snd y < snd (max_from x xs)"
        "\<forall>z \<in> set zs. snd z \<le> snd (max_from x xs)"
        by blast
      with True m have "x # xs = (x # ys) @ max_from b (x # xs) # zs
          \<and> snd b < snd (max_from b (x # xs))
          \<and> (\<forall>y \<in> set (x # ys). snd y < snd (max_from b (x # xs)))
          \<and> (\<forall>z \<in> set zs. snd z \<le> snd (max_from b (x # xs)))"
        by simp
      then show ?thesis by blast
    qed
  next
    case False
    then have m: "max_from b (x # xs) = max_from b xs" by simp
    from Cons.IH [of b] show ?thesis
    proof
      assume "max_from b xs = b \<and> (\<forall>y \<in> set xs. snd y \<le> snd b)"
      with False m show ?thesis by simp
    next
      assume "\<exists>ys zs. xs = ys @ max_from b xs # zs \<and> snd b < snd (max_from b xs)
         \<and> (\<forall>y \<in> set ys. snd y < snd (max_from b xs))
         \<and> (\<forall>z \<in> set zs. snd z \<le> snd (max_from b xs))"
      then obtain ys zs where r: "xs = ys @ max_from b xs # zs" "snd b < snd (max_from b xs)"
        "\<forall>y \<in> set ys. snd y < snd (max_from b xs)"
        "\<forall>z \<in> set zs. snd z \<le> snd (max_from b xs)"
        by blast
      with False m have "x # xs = (x # ys) @ max_from b (x # xs) # zs
          \<and> snd b < snd (max_from b (x # xs))
          \<and> (\<forall>y \<in> set (x # ys). snd y < snd (max_from b (x # xs)))
          \<and> (\<forall>z \<in> set zs. snd z \<le> snd (max_from b (x # xs)))"
        by simp
      then show ?thesis by blast
    qed
  qed
qed

text \<open>The maximum is the first entry with the greatest value.\<close>

lemma max_from_first:
  "\<exists>ys zs. b # xs = ys @ max_from b xs # zs
      \<and> (\<forall>y \<in> set ys. snd y < snd (max_from b xs))
      \<and> (\<forall>z \<in> set zs. snd z \<le> snd (max_from b xs))"
  using max_from_cases [of b xs]
proof
  assume "max_from b xs = b \<and> (\<forall>x \<in> set xs. snd x \<le> snd b)"
  then have "b # xs = [] @ max_from b xs # xs
      \<and> (\<forall>y \<in> set []. snd y < snd (max_from b xs))
      \<and> (\<forall>z \<in> set xs. snd z \<le> snd (max_from b xs))"
    by simp
  then show ?thesis by blast
next
  assume "\<exists>ys zs. xs = ys @ max_from b xs # zs \<and> snd b < snd (max_from b xs)
         \<and> (\<forall>y \<in> set ys. snd y < snd (max_from b xs))
         \<and> (\<forall>z \<in> set zs. snd z \<le> snd (max_from b xs))"
  then obtain ys zs where r: "xs = ys @ max_from b xs # zs" "snd b < snd (max_from b xs)"
    "\<forall>y \<in> set ys. snd y < snd (max_from b xs)"
    "\<forall>z \<in> set zs. snd z \<le> snd (max_from b xs)"
    by blast
  then have "b # xs = (b # ys) @ max_from b xs # zs
      \<and> (\<forall>y \<in> set (b # ys). snd y < snd (max_from b xs))
      \<and> (\<forall>z \<in> set zs. snd z \<le> snd (max_from b xs))"
    by simp
  then show ?thesis by blast
qed

lemma used_iff_held:
  assumes "tanks_consistent s" "tank \<in> set get_tank_names"
  shows "tank \<in> set (used_tanks (batches s)) \<longleftrightarrow> held_by_active s tank"
proof
  assume "tank \<in> set (used_tanks (batches s))"
  then obtain j c where c: "(j, c) \<in> set (batches s)" "phase_current_tank c = tank"
    unfolding in_used_tanks by blast
  from catalog_not_blank [OF assms(2)] c(2)
  have nb: "phase_current_tank c \<notin> set ['''', ''not applicable'']" by simp
  from assms(1) c(1) have "if phase_current c \<in> set [''ferm'', ''cond'']
          then tank_fits (phase_current_tank c) (phase_current c) (volume c)
          else phase_current_tank c \<in> set ['''', ''not applicable'']"
    unfolding tanks_consistent_def by blast
  with nb have "phase_current c \<in> set [''ferm'', ''cond'']"
    by (simp split: if_splits)
  then have "phase_current c \<noteq> ''finished''" by auto
  with c show "held_by_active s tank"
    unfolding held_by_active_def by blast
next
  assume "held_by_active s tank"
  with catalog_not_blank [OF assms(2)] show "tank \<in> set (used_tanks (batches s))"
    unfolding held_by_active_def in_used_tanks by blast
qed

lemma capable_tanks_report:
  assumes "plan_production now s = Inr rep"
  shows "capable_tanks rep =
           map (\<lambda>t. (t, volume_of t))
             (filter ferments
                (filter (\<lambda>tank. tank \<notin> set (used_tanks (batches s))) get_tank_names))"
    and "use_tank rep =
           (case capable_tanks rep of [] \<Rightarrow> no_tank_available | c # cs \<Rightarrow> fst (max_from c cs))"
    and "use_tank_volume rep =
           (case capable_tanks rep of [] \<Rightarrow> 0 | c # cs \<Rightarrow> snd (max_from c cs))"
proof -
  let ?free = "filter (\<lambda>tank. tank \<notin> set (used_tanks (batches s))) get_tank_names"
  have c: "capable_loop ?free = Inr (map (\<lambda>t. (t, volume_of t)) (filter ferments ?free))"
    by (rule capable_loop_catalog) simp
  from assms show "capable_tanks rep = map (\<lambda>t. (t, volume_of t)) (filter ferments ?free)"
    and "use_tank rep =
           (case capable_tanks rep of [] \<Rightarrow> no_tank_available | c # cs \<Rightarrow> fst (max_from c cs))"
    and "use_tank_volume rep =
           (case capable_tanks rep of [] \<Rightarrow> 0 | c # cs \<Rightarrow> snd (max_from c cs))"
    unfolding plan_production_def c
    by (auto split: if_splits sum.splits list.splits)
qed

lemma no_tank_available_no_name: "no_tank_available \<notin> set get_tank_names"
  by (simp add: no_tank_available_def get_tank_names_def Tanks_init_def)

text \<open>
  Claim C10. Whenever the planner gives its report in a state the requests lead to, the
  tanks it chooses from are exactly the tanks of the catalog that are not the tank of a
  batch that is not finished and that can ferment, each with its volume. If there is no
  such tank, the report names no tank of the catalog but says that no tank with the right
  capability is available. Otherwise the tank it names is one of them, no one of them has
  a greater volume, and of those with the same volume it is the first in the order of the
  names.
\<close>

theorem use_tank_largest_free_ferm:
  assumes "plan_production now (run qs initial_state) = Inr rep"
  shows "set (capable_tanks rep) =
           {(tank, vol). tank \<in> set get_tank_names
              \<and> \<not> held_by_active (run qs initial_state) tank
              \<and> ferments tank \<and> vol = volume_of tank}
       \<and> (capable_tanks rep = [] \<longrightarrow>
            use_tank rep = no_tank_available \<and> use_tank rep \<notin> set get_tank_names)
       \<and> (capable_tanks rep \<noteq> [] \<longrightarrow>
            (use_tank rep, use_tank_volume rep) \<in> set (capable_tanks rep)
            \<and> (\<forall>(tank, vol) \<in> set (capable_tanks rep).
                  vol \<le> use_tank_volume rep
                  \<and> (vol = use_tank_volume rep \<longrightarrow> use_tank rep \<le> tank)))"
proof (intro conjI impI)
  let ?s = "run qs initial_state"
  let ?free = "filter (\<lambda>tank. tank \<notin> set (used_tanks (batches ?s))) get_tank_names"
  note r = capable_tanks_report [OF assms]
  have tc: "tanks_consistent ?s"
    by (rule tanks_consistent_run [OF tanks_consistent_initial])
  show "set (capable_tanks rep) =
           {(tank, vol). tank \<in> set get_tank_names \<and> \<not> held_by_active ?s tank
              \<and> ferments tank \<and> vol = volume_of tank}"
    unfolding r(1) using used_iff_held [OF tc] by auto
  {
    assume "capable_tanks rep = []"
    with r(2) show "use_tank rep = no_tank_available" by simp
    then show "use_tank rep \<notin> set get_tank_names"
      by (simp add: no_tank_available_no_name)
  }
  assume "capable_tanks rep \<noteq> []"
  then obtain c cs where ccs: "capable_tanks rep = c # cs"
    by (cases "capable_tanks rep") auto
  let ?m = "max_from c cs"
  from r(2,3) ccs have u: "use_tank rep = fst ?m" "use_tank_volume rep = snd ?m"
    by simp_all
  from max_from_first [of c cs] obtain ys zs where
    split: "c # cs = ys @ ?m # zs"
    and ys: "\<forall>y \<in> set ys. snd y < snd ?m"
    and zs: "\<forall>z \<in> set zs. snd z \<le> snd ?m"
    by blast
  have m: "?m \<in> set (capable_tanks rep)"
    unfolding ccs split by simp
  with u show "(use_tank rep, use_tank_volume rep) \<in> set (capable_tanks rep)" by simp
  have "map fst (capable_tanks rep) = filter ferments ?free"
    unfolding r(1) by (simp add: comp_def)
  moreover have "sorted_wrt (<) (filter ferments ?free)"
    by (intro sorted_wrt_filter get_tank_names_sorted)
  ultimately have "sorted_wrt (<) (map fst (ys @ ?m # zs))"
    unfolding ccs split by simp
  then have later: "\<forall>z \<in> set zs. fst ?m < fst z"
    by (simp add: sorted_wrt_append)
  show "\<forall>(tank, vol) \<in> set (capable_tanks rep).
          vol \<le> use_tank_volume rep \<and> (vol = use_tank_volume rep \<longrightarrow> use_tank rep \<le> tank)"
  proof (clarify, intro conjI impI)
    fix tank vol
    assume tv: "(tank, vol) \<in> set (capable_tanks rep)"
    then have cases: "(tank, vol) \<in> set ys \<or> (tank, vol) = ?m \<or> (tank, vol) \<in> set zs"
      unfolding ccs split by auto
    have in_ys: "vol < snd ?m" if "(tank, vol) \<in> set ys"
      using ys that by fastforce
    have in_zs: "vol \<le> snd ?m \<and> fst ?m < tank" if "(tank, vol) \<in> set zs"
      using zs later that by fastforce
    have is_m: "vol = snd ?m \<and> tank = fst ?m" if "(tank, vol) = ?m"
      using that by (metis fst_conv snd_conv)
    from cases in_ys in_zs is_m show "vol \<le> use_tank_volume rep"
      unfolding u by fastforce
    assume "vol = use_tank_volume rep"
    with cases in_ys in_zs is_m show "use_tank rep \<le> tank"
      unfolding u by fastforce
  qed
qed

lemma run_append: "run (qs @ rs) s = run rs (run qs s)"
  by (induction qs arbitrary: s) auto

lemma plan_requests_state:
  "batches (run plan_requests initial_state) = batches (run tank_requests initial_state)"
  "monthly_sales_forecasts (run plan_requests initial_state) =
     [(''dunkers'', march_forecast 50), (''pilsner'', march_forecast 30),
      (''red_helles'', march_forecast 20)]"
  by (simp_all add: plan_requests_def run_append)

lemma march_forecast_usable: "forecast_usable now (march_forecast n)"
  by (simp add: forecast_usable_def march_forecast_def split: prod.splits)

lemma comprehension_list:
  "{(x, y). x \<in> set xs \<and> P x \<and> Q x \<and> y = f x}
   = set (map (\<lambda>x. (x, f x)) (filter (\<lambda>x. P x \<and> Q x) xs))"
  by auto

lemma plan_requests_held:
  "held_by_active (run plan_requests initial_state) tank \<longleftrightarrow> tank = ''albert'' \<or> tank = []"
  by (auto simp add: held_by_active_def plan_requests_state tank_requests_batches Batch_init_def)

lemma catalog_values:
  "ferments ''albert''" "ferments ''brigadier''" "ferments ''camilla''" "ferments ''dylon''"
  "ferments ''emily''" "ferments ''florence''" "\<not> ferments ''gertrude''"
  "\<not> ferments ''harry''" "ferments ''r2d2''"
  "volume_of ''albert'' = 1000" "volume_of ''brigadier'' = 800" "volume_of ''camilla'' = 1000"
  "volume_of ''dylon'' = 800" "volume_of ''emily'' = 1000" "volume_of ''florence'' = 800"
  "volume_of ''gertrude'' = 680" "volume_of ''harry'' = 680" "volume_of ''r2d2'' = 800"
  by (simp_all add: ferments_def volume_of_def get_tank_value_def Tanks_init_def)

lemma plan_requests_free:
  "{(tank, vol). tank \<in> set get_tank_names
       \<and> \<not> held_by_active (run plan_requests initial_state) tank
       \<and> ferments tank \<and> vol = volume_of tank}
   = {(''brigadier'', 800), (''camilla'', 1000), (''dylon'', 800), (''emily'', 1000),
      (''florence'', 800), (''r2d2'', 800)}"
proof -
  have "{(tank, vol). tank \<in> set get_tank_names
       \<and> \<not> held_by_active (run plan_requests initial_state) tank
       \<and> ferments tank \<and> vol = volume_of tank}
     = set (map (\<lambda>x. (x, volume_of x))
         (filter (\<lambda>tank. \<not> held_by_active (run plan_requests initial_state) tank
                    \<and> ferments tank) get_tank_names))"
    by (rule comprehension_list)
  also have "\<dots> = {(''brigadier'', 800), (''camilla'', 1000), (''dylon'', 800),
                     (''emily'', 1000), (''florence'', 800), (''r2d2'', 800)}"
    by (simp add: get_tank_names_def Tanks_init_def catalog_values plan_requests_held)
  finally show ?thesis .
qed

lemma plan_requests_returns:
  "\<exists>rep. plan_production t0 (run plan_requests initial_state) = Inr rep"
  by (rule plan_production_returns)
    (simp_all add: plan_requests_state tank_requests_batches Batch_init_def beer_types_def
      march_forecast_usable)

lemma full_requests_batches:
  "map (\<lambda>(i, b). (beer_type b, phase_current b, phase_current_tank b))
     (batches (run full_requests initial_state)) =
   [(''pilsner'', ''ferm'', ''albert''), (''pilsner'', ''ferm'', ''brigadier''),
    (''pilsner'', ''ferm'', ''camilla''), (''pilsner'', ''ferm'', ''dylon''),
    (''pilsner'', ''ferm'', ''emily''), (''pilsner'', ''ferm'', ''florence''),
    (''pilsner'', ''ferm'', ''r2d2'')]"
  "monthly_sales_forecasts (run full_requests initial_state) =
     [(''dunkers'', march_forecast 50), (''pilsner'', march_forecast 30),
      (''red_helles'', march_forecast 20)]"
  by (simp_all add: full_requests_def initial_state_def add_delete_batch_def float_overflow_def
      remove_blanks_def
      change_batchs_phase_def change_batch_def set_phase_start_end_datetimes_def
      available_tanks_def used_tanks_def get_tank_names_def get_tank_value_def Tanks_init_def
      Batch_init_def Let_def)

lemma held_by_active_entries:
  "held_by_active s tank \<longleftrightarrow>
     (\<exists>(bt, p, t) \<in> set (map (\<lambda>(i, b). (beer_type b, phase_current b, phase_current_tank b))
                         (batches s)). p \<noteq> ''finished'' \<and> t = tank)"
  by (force simp: held_by_active_def)

lemma beer_types_entries:
  "(\<forall>b \<in> set (map snd (batches s)). beer_type b \<in> set beer_types) \<longleftrightarrow>
     (\<forall>(bt, p, t) \<in> set (map (\<lambda>(i, b). (beer_type b, phase_current b, phase_current_tank b))
                         (batches s)). bt \<in> set beer_types)"
  by force

lemma full_requests_returns:
  "\<exists>rep. plan_production t0 (run full_requests initial_state) = Inr rep"
proof (rule plan_production_returns)
  show "\<forall>b \<in> set (map snd (batches (run full_requests initial_state))).
          beer_type b \<in> set beer_types"
    unfolding beer_types_entries full_requests_batches by (simp add: beer_types_def)
qed (simp_all add: full_requests_batches beer_types_def march_forecast_usable)

lemma full_requests_held:
  "held_by_active (run full_requests initial_state) tank \<longleftrightarrow>
     tank \<in> set [''albert'', ''brigadier'', ''camilla'', ''dylon'', ''emily'', ''florence'',
                 ''r2d2'']"
  unfolding held_by_active_entries full_requests_batches by auto

lemma full_requests_free:
  "{(tank, vol). tank \<in> set get_tank_names
       \<and> \<not> held_by_active (run full_requests initial_state) tank
       \<and> ferments tank \<and> vol = volume_of tank} = {}"
proof -
  have "{(tank, vol). tank \<in> set get_tank_names
       \<and> \<not> held_by_active (run full_requests initial_state) tank
       \<and> ferments tank \<and> vol = volume_of tank}
     = set (map (\<lambda>x. (x, volume_of x))
         (filter (\<lambda>tank. \<not> held_by_active (run full_requests initial_state) tank
                    \<and> ferments tank) get_tank_names))"
    by (rule comprehension_list)
  also have "\<dots> = {}"
    by (simp add: get_tank_names_def Tanks_init_def catalog_values full_requests_held)
  finally show ?thesis .
qed

theorem use_tank_largest_free_ferm_witness:
  "(\<exists>rep. plan_production t0 (run plan_requests initial_state) = Inr rep
     \<and> held_by_active (run plan_requests initial_state) ''albert''
     \<and> set (capable_tanks rep) =
         {(''brigadier'', 800), (''camilla'', 1000), (''dylon'', 800), (''emily'', 1000),
          (''florence'', 800), (''r2d2'', 800)}
     \<and> use_tank rep = ''camilla'' \<and> use_tank_volume rep = 1000)
   \<and> (\<exists>rep. plan_production t0 (run full_requests initial_state) = Inr rep
     \<and> capable_tanks rep = [] \<and> use_tank rep = no_tank_available)"
proof -
  let ?s = "run plan_requests initial_state"
  from plan_requests_returns obtain rep where rep: "plan_production t0 ?s = Inr rep"
    by blast
  have held: "held_by_active ?s ''albert''"
    by (simp add: plan_requests_held)
  note w = use_tank_largest_free_ferm [OF rep, unfolded plan_requests_free]
  from w have c: "set (capable_tanks rep) =
         {(''brigadier'', 800), (''camilla'', 1000), (''dylon'', 800), (''emily'', 1000),
          (''florence'', 800), (''r2d2'', 800)}"
    by (rule conjunct1)
  have ne: "capable_tanks rep \<noteq> []"
  proof
    assume "capable_tanks rep = []"
    then have "set (capable_tanks rep) = {}" by simp
    with c show False by simp
  qed
  from w have "capable_tanks rep \<noteq> [] \<longrightarrow>
            (use_tank rep, use_tank_volume rep) \<in> set (capable_tanks rep)
            \<and> (\<forall>(tank, vol) \<in> set (capable_tanks rep).
                  vol \<le> use_tank_volume rep
                  \<and> (vol = use_tank_volume rep \<longrightarrow> use_tank rep \<le> tank))"
    by (rule conjunct2 [THEN conjunct2])
  with ne have u: "(use_tank rep, use_tank_volume rep) \<in> set (capable_tanks rep)"
    and m: "\<forall>(tank, vol) \<in> set (capable_tanks rep).
                  vol \<le> use_tank_volume rep
                  \<and> (vol = use_tank_volume rep \<longrightarrow> use_tank rep \<le> tank)"
    by simp_all
  from m have big: "1000 \<le> use_tank_volume rep"
    and tie: "1000 = use_tank_volume rep \<longrightarrow> use_tank rep \<le> ''camilla''"
    unfolding c by simp_all
  from u have vols: "use_tank_volume rep = 800 \<or> use_tank_volume rep = 1000"
    and names: "use_tank_volume rep = 1000 \<longrightarrow>
                  use_tank rep = ''camilla'' \<or> use_tank rep = ''emily''"
    unfolding c by auto
  from vols big have v: "use_tank_volume rep = 1000" by arith
  with tie have le: "use_tank rep \<le> ''camilla''" by simp
  have "\<not> ''emily'' \<le> ''camilla''"
    by (simp add: less_eq_char_def less_char_def)
  with names v le have "use_tank rep = ''camilla''"
    by auto
  with rep held c v have first:
    "\<exists>rep. plan_production t0 ?s = Inr rep
     \<and> held_by_active ?s ''albert''
     \<and> set (capable_tanks rep) =
         {(''brigadier'', 800), (''camilla'', 1000), (''dylon'', 800), (''emily'', 1000),
          (''florence'', 800), (''r2d2'', 800)}
     \<and> use_tank rep = ''camilla'' \<and> use_tank_volume rep = 1000"
    by (intro exI [of _ rep]) (simp only: simp_thms)
  let ?f = "run full_requests initial_state"
  from full_requests_returns obtain rep' where rep': "plan_production t0 ?f = Inr rep'"
    by blast
  note w' = use_tank_largest_free_ferm [OF rep', unfolded full_requests_free]
  from w' have "set (capable_tanks rep') = {}"
    by (rule conjunct1)
  then have e: "capable_tanks rep' = []" by simp
  from w' have "capable_tanks rep' = [] \<longrightarrow>
            use_tank rep' = no_tank_available \<and> use_tank rep' \<notin> set get_tank_names"
    by (rule conjunct2 [THEN conjunct1])
  with e have "use_tank rep' = no_tank_available" by simp
  with rep' e have second: "\<exists>rep. plan_production t0 ?f = Inr rep
     \<and> capable_tanks rep = [] \<and> use_tank rep = no_tank_available"
    by (intro exI [of _ rep']) (simp only: simp_thms)
  from first second show ?thesis by (rule conjI)
qed

section \<open>The three months of the plan\<close>

lemma end_month_matches_finish:
  "end_month_matches (end_phases b) m \<longleftrightarrow>
     (case projected_finish b of Some t \<Rightarrow> month t = m | None \<Rightarrow> False)"
  by (auto simp: end_month_matches_def projected_finish_def end_phases_def
      split: option.splits)

lemma add3_zero [simp]: "add3 0 0 0 = (\<lambda>v. v)"
  by (rule ext) (simp add: add3_def)

lemma add3_add3 [simp]: "add3 a b c (add3 a' b' c' v) = add3 (a' + a) (b' + b) (c' + c) v"
  by (simp add: add3_def)

lemma add_to_month_lookup:
  assumes "add_to_month beer' index n d = Inr d'" "index \<le> 2"
  shows "map_of d' beer =
           map_option (add3 (if beer' = beer \<and> index = 0 then n else 0)
                            (if beer' = beer \<and> index = 1 then n else 0)
                            (if beer' = beer \<and> index = 2 then n else 0)) (map_of d beer)"
  using assms
  by (auto simp: add_to_month_def update_conv' get_month_def set_month_def add3_def
      option.map_ident split: option.splits)

lemma month_step_lookup:
  assumes "(if c then add_to_month beer' index n d else Inr d) = Inr d'" "index \<le> 2"
  shows "map_of d' beer =
           map_option (add3 (if beer' = beer \<and> c \<and> index = 0 then n else 0)
                            (if beer' = beer \<and> c \<and> index = 1 then n else 0)
                            (if beer' = beer \<and> c \<and> index = 2 then n else 0)) (map_of d beer)"
proof (cases c)
  case True
  with assms add_to_month_lookup [of beer' index n d d' beer] show ?thesis by simp
next
  case False
  with assms show ?thesis by (simp add: option.map_ident)
qed

lemma month_loop_lookup:
  assumes "month_loop b [0, 1, 2] m d = Inr d'"
  shows "map_of d' beer =
           map_option
             (add3 (if beer_type b = beer \<and> end_month_matches (end_phases b) (bucket_month m 0)
                    then volume b * 2 else 0)
                   (if beer_type b = beer \<and> end_month_matches (end_phases b) (bucket_month m 1)
                    then volume b * 2 else 0)
                   (if beer_type b = beer \<and> end_month_matches (end_phases b) (bucket_month m 2)
                    then volume b * 2 else 0)) (map_of d beer)"
proof -
  let ?n = "volume b * 2"
  define c0 where "c0 = end_month_matches (end_phases b) (bucket_month m 0)"
  define c1 where "c1 = end_month_matches (end_phases b) (bucket_month m 1)"
  define c2 where "c2 = end_month_matches (end_phases b) (bucket_month m 2)"
  have bm: "bucket_month m 0 = m" "bucket_month m 1 = (if m + 1 = 13 then 1 else m + 1)"
    "bucket_month m 2 = (if bucket_month m 1 + 1 = 13 then 1 else bucket_month m 1 + 1)"
    by (simp_all add: numeral_2_eq_2)
  from assms obtain d1 d2 where
    s0: "(if c0 then add_to_month (beer_type b) 0 ?n d else Inr d) = Inr d1"
    and s1: "(if c1 then add_to_month (beer_type b) 1 ?n d1 else Inr d1) = Inr d2"
    and s2: "(if c2 then add_to_month (beer_type b) 2 ?n d2 else Inr d2) = Inr d'"
    unfolding c0_def c1_def c2_def bm by (auto split: sum.splits if_splits)
  have l0: "map_of d1 beer =
      map_option (add3 (if beer_type b = beer \<and> c0 then ?n else 0) 0 0) (map_of d beer)"
    using month_step_lookup [OF s0, of beer] by simp
  have l1: "map_of d2 beer =
      map_option (add3 0 (if beer_type b = beer \<and> c1 then ?n else 0) 0) (map_of d1 beer)"
    using month_step_lookup [OF s1, of beer] by simp
  have l2: "map_of d' beer =
      map_option (add3 0 0 (if beer_type b = beer \<and> c2 then ?n else 0)) (map_of d2 beer)"
    using month_step_lookup [OF s2, of beer] by simp
  have "map_of d' beer =
      map_option (add3 (if beer_type b = beer \<and> c0 then ?n else 0)
                       (if beer_type b = beer \<and> c1 then ?n else 0)
                       (if beer_type b = beer \<and> c2 then ?n else 0)) (map_of d beer)"
    unfolding l2 l1 l0 by (cases "map_of d beer") simp_all
  then show ?thesis
    unfolding c0_def c1_def c2_def .
qed

lemma month_loop_due:
  assumes "month_loop b [0, 1, 2] m d = Inr d'" "\<not> bottles_put_in_inventory b"
  shows "map_of d' beer =
           map_option (add3 (bottles_due m 0 beer b) (bottles_due m 1 beer b)
                            (bottles_due m 2 beer b)) (map_of d beer)"
  unfolding month_loop_lookup [OF assms(1)] bottles_due_def end_month_matches_finish
  using assms(2) by simp

lemma bottles_due_put [simp]: "bottles_put_in_inventory b \<Longrightarrow> bottles_due m k beer b = 0"
  by (simp add: bottles_due_def)

lemma batch_loop_lookup:
  assumes "batch_loop now bs d = Inr d'"
  shows "map_of d' beer =
           map_option (add3 (\<Sum>b\<leftarrow>bs. bottles_due (month now) 0 beer b)
                            (\<Sum>b\<leftarrow>bs. bottles_due (month now) 1 beer b)
                            (\<Sum>b\<leftarrow>bs. bottles_due (month now) 2 beer b)) (map_of d beer)"
  using assms
proof (induction bs arbitrary: d)
  case Nil
  then show ?case by (simp add: option.map_ident)
next
  case (Cons b bs)
  show ?case
  proof (cases "bottles_put_in_inventory b")
    case True
    with Cons.prems have "batch_loop now bs d = Inr d'" by simp
    from Cons.IH [OF this] True show ?thesis by simp
  next
    case False
    with Cons.prems obtain d1 where d1: "month_loop b [0, 1, 2] (month now) d = Inr d1"
      and rest: "batch_loop now bs d1 = Inr d'"
      by (auto simp del: month_loop.simps split: sum.splits)
    show ?thesis
      unfolding Cons.IH [OF rest] month_loop_due [OF d1 False]
      by (cases "map_of d beer") simp_all
  qed
qed

lemma add_inventory_lookup:
  assumes "add_inventory ivt ks d = Inr d'" "distinct ks"
  shows "map_of d' beer =
           map_option (add3 (if beer \<in> set ks then inventory_count ivt beer else 0) 0 0)
             (map_of d beer)"
  using assms
proof (induction ks arbitrary: d)
  case Nil
  then show ?case by (simp add: option.map_ident)
next
  case (Cons k ks)
  from Cons.prems(1) obtain n d1 where n: "get_inv_items_quantity ivt k = Dict n"
    and d1: "add_to_month k 0 n d = Inr d1"
    and rest: "add_inventory ivt ks d1 = Inr d'"
    by (auto split: attr.splits sum.splits)
  from Cons.prems(2) have dk: "distinct ks" and nk: "k \<notin> set ks" by simp_all
  from n have c: "inventory_count ivt k = n" by (simp add: inventory_count_def)
  show ?case
    unfolding Cons.IH [OF rest dk] add_to_month_lookup [OF d1, of beer, simplified]
    using nk c by (cases "map_of d beer") auto
qed

lemma plan_production_end_inv:
  assumes "plan_production now s = Inr rep"
  obtains e1 where "batch_loop now (map snd (batches s)) three_months_zero = Inr e1"
    and "add_inventory (inventory s) (map fst e1) e1 = Inr (three_month_end_inv rep)"
  using assms
  by (auto simp: plan_production_def split: if_splits sum.splits list.splits)

text \<open>What the report says of a beer type: the inventory and the bottles to come.\<close>

lemma end_inv_lookup:
  assumes r: "plan_production now s = Inr rep" and beer: "beer \<in> set beer_types"
  shows "map_of (three_month_end_inv rep) beer =
           Some \<lparr>this_month = inventory_count (inventory s) beer
                    + (\<Sum>b\<leftarrow>map snd (batches s). bottles_due (month now) 0 beer b),
                 next_month = (\<Sum>b\<leftarrow>map snd (batches s). bottles_due (month now) 1 beer b),
                 third_month = (\<Sum>b\<leftarrow>map snd (batches s). bottles_due (month now) 2 beer b)\<rparr>"
proof -
  from r obtain e1 where
    e1: "batch_loop now (map snd (batches s)) three_months_zero = Inr e1"
    and e2: "add_inventory (inventory s) (map fst e1) e1 = Inr (three_month_end_inv rep)"
    by (rule plan_production_end_inv)
  have z: "map fst three_months_zero = beer_types"
    by (simp add: three_months_zero_def beer_types_def)
  from batch_loop_keys [OF e1] z have k: "map fst e1 = beer_types" by simp
  then have dk: "distinct (map fst e1)" by (simp add: beer_types_def)
  from beer have zero: "map_of three_months_zero beer
      = Some \<lparr>this_month = 0, next_month = 0, third_month = 0\<rparr>"
    by (auto simp: three_months_zero_def beer_types_def)
  from beer k have "beer \<in> set (map fst e1)" by simp
  then show ?thesis
    unfolding add_inventory_lookup [OF e2 dk] batch_loop_lookup [OF e1] zero
    by (simp add: add3_def)
qed

lemma bucket_month_following:
  assumes "1 \<le> m" "m \<le> 12"
  shows "map (bucket_month m) [0, 1, 2] =
           [m, snd (following_month (y, m)), snd (following_month (following_month (y, m)))]"
  using assms by (auto simp: following_month_def numeral_2_eq_2)

text \<open>
  Claim C6, as the code has it. The first forecast key is the first day of the current
  month. On the days 1 to 28 of a month the three keys are the first days of the current
  month and of the two calendar months after it, where the month after month 12 is month
  1 of the next year. The month numbers of the three buckets are those of the same three
  calendar months: the counter starts at the current month number and 13 is replaced by
  1. A batch that is not yet in the inventory adds \<open>2 * volume\<close> bottles to the bucket of
  its beer type whose month number is the month number of the date on which it is
  expected to be finished, whatever the year of that date, and adds nothing if that month
  number is none of the three; the inventory is added to the bucket of the current month.
\<close>

theorem three_month_windows:
  assumes v: "valid_datetime now" and r: "plan_production now s = Inr rep"
  shows "fst (forecast_dates now) = first_of_month (year now) (month now)
       \<and> (day now \<le> 28 \<longrightarrow>
            forecast_dates now =
              (first_of_month (year now) (month now),
               first_of_month (fst (following_month (year now, month now)))
                              (snd (following_month (year now, month now))),
               first_of_month (fst (following_month (following_month (year now, month now))))
                              (snd (following_month (following_month (year now, month now))))))
       \<and> (month now = 12 \<longrightarrow> following_month (year now, month now) = (year now + 1, 1))
       \<and> map (bucket_month (month now)) [0, 1, 2] =
           [month now, snd (following_month (year now, month now)),
            snd (following_month (following_month (year now, month now)))]
       \<and> (\<forall>beer \<in> set beer_types.
            map_of (three_month_end_inv rep) beer =
              Some \<lparr>this_month = inventory_count (inventory s) beer
                       + (\<Sum>b\<leftarrow>map snd (batches s). bottles_due (month now) 0 beer b),
                    next_month = (\<Sum>b\<leftarrow>map snd (batches s). bottles_due (month now) 1 beer b),
                    third_month =
                      (\<Sum>b\<leftarrow>map snd (batches s). bottles_due (month now) 2 beer b)\<rparr>)"
proof (intro conjI impI ballI)
  show "fst (forecast_dates now) = first_of_month (year now) (month now)"
    by (simp add: forecast_dates_def Let_def)
next
  assume "day now \<le> 28"
  with v show "forecast_dates now =
              (first_of_month (year now) (month now),
               first_of_month (fst (following_month (year now, month now)))
                              (snd (following_month (year now, month now))),
               first_of_month (fst (following_month (following_month (year now, month now))))
                              (snd (following_month (following_month (year now, month now)))))"
    by (rule forecast_dates_regular)
next
  assume "month now = 12"
  then show "following_month (year now, month now) = (year now + 1, 1)"
    by (simp add: following_month_def)
next
  from v have "1 \<le> month now" "month now \<le> 12"
    by (simp_all add: valid_datetime_def)
  then show "map (bucket_month (month now)) [0, 1, 2] =
           [month now, snd (following_month (year now, month now)),
            snd (following_month (following_month (year now, month now)))]"
    by (rule bucket_month_following)
next
  fix beer
  assume "beer \<in> set beer_types"
  with r show "map_of (three_month_end_inv rep) beer =
              Some \<lparr>this_month = inventory_count (inventory s) beer
                       + (\<Sum>b\<leftarrow>map snd (batches s). bottles_due (month now) 0 beer b),
                    next_month = (\<Sum>b\<leftarrow>map snd (batches s). bottles_due (month now) 1 beer b),
                    third_month =
                      (\<Sum>b\<leftarrow>map snd (batches s). bottles_due (month now) 2 beer b)\<rparr>"
    by (rule end_inv_lookup)
qed

lemma bottling_requests_state:
  "map snd (batches (run (bottling_requests t) initial_state)) =
     [(Batch_init ''b1'' ''pilsner'' 500)
        \<lparr>phase_current := ''bottling'', phase_current_tank := ''not applicable'',
         phase_last_completed := ''cond'', time_start_phase4 := Some t,
         time_end_phase4 := Some (dt_add t (duration_phase4 500))\<rparr>]"
  "monthly_sales_forecasts (run (bottling_requests t) initial_state) =
     [(''dunkers'', march_forecast 50), (''pilsner'', march_forecast 30),
      (''red_helles'', march_forecast 20)]"
  "inventory (run (bottling_requests t) initial_state) = Inventory_init"
  by (simp_all add: bottling_requests_def initial_state_def add_delete_batch_def
      float_overflow_def remove_blanks_def change_batchs_phase_def change_batch_def
      set_phase_start_end_datetimes_def Batch_init_def Let_def)

lemma bottling_finish:
  "dt_add t0 (duration_phase4 500) = \<lparr>year = 2024, month = 3, day = 16, usec = 9600000000\<rparr>"
  "dt_add t_old (duration_phase4 500) = \<lparr>year = 2023, month = 3, day = 11, usec = 9600000000\<rparr>"
  by (simp_all add: dt_add_def duration_phase4_def add_days_def next_day_def monthrange_def
      usec_per_day_def t0_def t_old_def Let_def)

lemma bottling_due:
  "bottles_due m k beer
     ((Batch_init ''b1'' ''pilsner'' 500)
        \<lparr>phase_current := ''bottling'', phase_current_tank := ''not applicable'',
         phase_last_completed := ''cond'', time_start_phase4 := Some t,
         time_end_phase4 := Some e\<rparr>)
   = (if beer = ''pilsner'' \<and> month e = bucket_month m k then 1000 else 0)"
  by (simp add: bottles_due_def projected_finish_def end_phases_def Batch_init_def)

lemma bottling_requests_returns:
  "\<exists>rep. plan_production now (run (bottling_requests t) initial_state) = Inr rep"
  by (rule plan_production_returns)
    (simp_all add: bottling_requests_state Batch_init_def beer_types_def march_forecast_usable)

lemma valid_examples:
  "valid_datetime t0" "valid_datetime t_dec" "valid_datetime t_old"
  by (simp_all add: valid_datetime_def t0_def t_dec_def t_old_def monthrange_def
      usec_per_day_def)

theorem three_month_windows_witness:
  "valid_datetime t0 \<and> day t0 \<le> 28
   \<and> (\<exists>rep. plan_production t0 (run (bottling_requests t0) initial_state) = Inr rep
         \<and> forecast_dates t0
             = (first_of_month 2024 3, first_of_month 2024 4, first_of_month 2024 5)
         \<and> map (bucket_month (month t0)) [0, 1, 2] = [3, 4, 5]
         \<and> map_of (three_month_end_inv rep) ''pilsner''
             = Some \<lparr>this_month = 1000, next_month = 0, third_month = 0\<rparr>)
   \<and> valid_datetime t_dec \<and> day t_dec \<le> 28
   \<and> (\<exists>rep. plan_production t_dec (run (bottling_requests t0) initial_state) = Inr rep
         \<and> forecast_dates t_dec
             = (first_of_month 2024 12, first_of_month 2025 1, first_of_month 2025 2)
         \<and> map (bucket_month (month t_dec)) [0, 1, 2] = [12, 1, 2]
         \<and> map_of (three_month_end_inv rep) ''pilsner''
             = Some \<lparr>this_month = 0, next_month = 0, third_month = 0\<rparr>)"
proof -
  let ?s = "run (bottling_requests t0) initial_state"
  have p: "''pilsner'' \<in> set beer_types" by (simp add: beer_types_def)
  have d: "day t0 \<le> 28" "day t_dec \<le> 28" by (simp_all add: t0_def t_dec_def)
  from bottling_requests_returns obtain rep where rep: "plan_production t0 ?s = Inr rep"
    by blast
  from bottling_requests_returns obtain rep' where rep': "plan_production t_dec ?s = Inr rep'"
    by blast
  note w = three_month_windows [OF valid_examples(1) rep]
  note w' = three_month_windows [OF valid_examples(2) rep']
  from w d(1) have k: "forecast_dates t0
      = (first_of_month 2024 3, first_of_month 2024 4, first_of_month 2024 5)"
    by (simp add: t0_def following_month_def)
  from w have m: "map (bucket_month (month t0)) [0, 1, 2] = [3, 4, 5]"
    by (simp add: t0_def following_month_def)
  have mt: "month t0 = 3" "month t_dec = 12" by (simp_all add: t0_def t_dec_def)
  from w have "\<forall>beer \<in> set beer_types.
            map_of (three_month_end_inv rep) beer =
              Some \<lparr>this_month = inventory_count (inventory ?s) beer
                       + (\<Sum>b\<leftarrow>map snd (batches ?s). bottles_due (month t0) 0 beer b),
                    next_month = (\<Sum>b\<leftarrow>map snd (batches ?s). bottles_due (month t0) 1 beer b),
                    third_month =
                      (\<Sum>b\<leftarrow>map snd (batches ?s). bottles_due (month t0) 2 beer b)\<rparr>"
    by (rule conjunct2 [THEN conjunct2, THEN conjunct2, THEN conjunct2])
  from bspec [OF this p] have e: "map_of (three_month_end_inv rep) ''pilsner''
      = Some \<lparr>this_month = 1000, next_month = 0, third_month = 0\<rparr>"
    by (simp add: bottling_requests_state bottling_due bottling_finish inventory_count_def
        get_inv_items_quantity_def Inventory_init_def mt numeral_2_eq_2)
  from w' d(2) have k': "forecast_dates t_dec
      = (first_of_month 2024 12, first_of_month 2025 1, first_of_month 2025 2)"
    by (simp add: t_dec_def following_month_def numeral_2_eq_2)
  from w' have m': "map (bucket_month (month t_dec)) [0, 1, 2] = [12, 1, 2]"
    by (simp add: t_dec_def following_month_def numeral_2_eq_2)
  from w' have "\<forall>beer \<in> set beer_types.
            map_of (three_month_end_inv rep') beer =
              Some \<lparr>this_month = inventory_count (inventory ?s) beer
                       + (\<Sum>b\<leftarrow>map snd (batches ?s). bottles_due (month t_dec) 0 beer b),
                    next_month =
                      (\<Sum>b\<leftarrow>map snd (batches ?s). bottles_due (month t_dec) 1 beer b),
                    third_month =
                      (\<Sum>b\<leftarrow>map snd (batches ?s). bottles_due (month t_dec) 2 beer b)\<rparr>"
    by (rule conjunct2 [THEN conjunct2, THEN conjunct2, THEN conjunct2])
  from bspec [OF this p] have e': "map_of (three_month_end_inv rep') ''pilsner''
      = Some \<lparr>this_month = 0, next_month = 0, third_month = 0\<rparr>"
    by (simp add: bottling_requests_state bottling_due bottling_finish inventory_count_def
        get_inv_items_quantity_def Inventory_init_def mt numeral_2_eq_2)
  from rep k m e have first:
    "\<exists>rep. plan_production t0 ?s = Inr rep
         \<and> forecast_dates t0
             = (first_of_month 2024 3, first_of_month 2024 4, first_of_month 2024 5)
         \<and> map (bucket_month (month t0)) [0, 1, 2] = [3, 4, 5]
         \<and> map_of (three_month_end_inv rep) ''pilsner''
             = Some \<lparr>this_month = 1000, next_month = 0, third_month = 0\<rparr>"
    by (intro exI [of _ rep] conjI)
  from rep' k' m' e' have second:
    "\<exists>rep. plan_production t_dec ?s = Inr rep
         \<and> forecast_dates t_dec
             = (first_of_month 2024 12, first_of_month 2025 1, first_of_month 2025 2)
         \<and> map (bucket_month (month t_dec)) [0, 1, 2] = [12, 1, 2]
         \<and> map_of (three_month_end_inv rep) ''pilsner''
             = Some \<lparr>this_month = 0, next_month = 0, third_month = 0\<rparr>"
    by (intro exI [of _ rep'] conjI)
  note v0 = valid_examples(1) and v12 = valid_examples(2)
  show ?thesis by (intro conjI) fact+
qed

text \<open>
  The claim as stated fails for a batch put to bottling on 10 March 2023, expected to be
  finished on 11 March 2023 and never set to finished: on 15 March 2024 its 1000 bottles
  are counted in the bucket of the current month, although that date is in none of the
  three months from March to May 2024.
\<close>

theorem finish_year_ignored_counterexample:
  "map (projected_finish \<circ> snd) (batches (run (bottling_requests t_old) initial_state))
     = [Some \<lparr>year = 2023, month = 3, day = 11, usec = 9600000000\<rparr>]
   \<and> year t0 = 2024 \<and> month t0 = 3
   \<and> (\<exists>rep. plan_production t0 (run (bottling_requests t_old) initial_state) = Inr rep
         \<and> map_of (three_month_end_inv rep) ''pilsner''
             = Some \<lparr>this_month = 1000, next_month = 0, third_month = 0\<rparr>)"
proof -
  let ?s = "run (bottling_requests t_old) initial_state"
  have p: "''pilsner'' \<in> set beer_types" by (simp add: beer_types_def)
  have f: "map (projected_finish \<circ> snd) (batches ?s)
     = [Some \<lparr>year = 2023, month = 3, day = 11, usec = 9600000000\<rparr>]"
    using bottling_requests_state(1) [of t_old]
    by (simp add: projected_finish_def end_phases_def bottling_finish flip: map_map)
  from bottling_requests_returns obtain rep where rep: "plan_production t0 ?s = Inr rep"
    by blast
  have mt: "month t0 = 3" by (simp add: t0_def)
  from end_inv_lookup [OF rep p] have "map_of (three_month_end_inv rep) ''pilsner''
      = Some \<lparr>this_month = 1000, next_month = 0, third_month = 0\<rparr>"
    by (simp add: bottling_requests_state bottling_due bottling_finish inventory_count_def
        get_inv_items_quantity_def Inventory_init_def mt numeral_2_eq_2)
  then have r: "\<exists>rep. plan_production t0 ?s = Inr rep
         \<and> map_of (three_month_end_inv rep) ''pilsner''
             = Some \<lparr>this_month = 1000, next_month = 0, third_month = 0\<rparr>"
    using rep by (intro exI [of _ rep] conjI)
  have y: "year t0 = 2024" by (simp add: t0_def)
  show ?thesis by (intro conjI) fact+
qed

text \<open>
  On the last days of a month the second key can miss the next month: 31 days after
  31 January 2023 is 3 March, so the keys are those of January, March and April.
\<close>

lemma forecast_dates_january_31:
  "forecast_dates t_jan31 = (first_of_month 2023 1, first_of_month 2023 3, first_of_month 2023 4)"
proof -
  let ?feb1 = "\<lparr>year = 2023, month = 2, day = 1, usec = 36000000000\<rparr>"
  let ?feb28 = "\<lparr>year = 2023, month = 2, day = 28, usec = 36000000000\<rparr>"
  let ?mar1 = "\<lparr>year = 2023, month = 3, day = 1, usec = 36000000000\<rparr>"
  let ?mar3 = "\<lparr>year = 2023, month = 3, day = 3, usec = 36000000000\<rparr>"
  let ?apr3 = "\<lparr>year = 2023, month = 4, day = 3, usec = 36000000000\<rparr>"
  have u: "int (usec t_jan31) < usec_per_day" "int (usec ?mar3) < usec_per_day"
    by (simp_all add: t_jan31_def usec_per_day_def)
  have mr: "monthrange (year t_jan31) (month t_jan31) = 31" "monthrange 2023 3 = 31"
    by (simp_all add: t_jan31_def monthrange_def)
  have a: "next_day t_jan31 = ?feb1"
    by (simp add: next_day_last t_jan31_def monthrange_def following_month_def)
  have b: "(next_day ^^ 27) ?feb1 = ?feb28"
    by (simp add: funpow_next_day_within monthrange_def leap_def)
  have c: "next_day ?feb28 = ?mar1"
    by (simp add: next_day_last monthrange_def leap_def following_month_def)
  have d: "(next_day ^^ 2) ?mar1 = ?mar3"
    by (simp add: funpow_next_day_within monthrange_def)
  have split: "(31::nat) = 2 + Suc (27 + Suc 0)" by simp
  have "(next_day ^^ 31) t_jan31 = (next_day ^^ 2) (next_day ((next_day ^^ 27) (next_day t_jan31)))"
    by (subst split) (simp only: funpow_add o_apply funpow.simps id_apply)
  also have "\<dots> = ?mar3" by (simp only: a b c d)
  finally have n: "dt_add t_jan31 (days (int 31)) = ?mar3"
    by (simp only: dt_add_days [OF u(1)])
  have "(next_day ^^ monthrange (year ?mar3) (month ?mar3)) ?mar3 = ?apr3"
    by (subst funpow_next_day_month) (simp_all add: following_month_def)
  then have t: "dt_add ?mar3 (days (int 31)) = ?apr3"
    using dt_add_days [OF u(2), of 31] by (simp add: mr)
  from n have n': "dt_add t_jan31 (days (int (monthrange (year t_jan31) (month t_jan31))))
      = ?mar3"
    by (simp only: mr)
  from t have t': "dt_add ?mar3 (days (int (monthrange (year ?mar3) (month ?mar3)))) = ?apr3"
    by (simp add: mr)
  show ?thesis
    unfolding forecast_dates_def Let_def n' t'
    by (simp add: first_of_month_def t_jan31_def)
qed

end
